theory Spec2Isabelle
  imports Main
begin

section \<open>The host: filesystem, path library, configuration\<close>

text \<open>
  \<^verbatim>\<open>VectorDBLoader.ts\<close> calls Node's \<^verbatim>\<open>fs\<close>, \<^verbatim>\<open>path\<close> and \<^verbatim>\<open>child_process\<close> modules and V8's
  \<^verbatim>\<open>JSON.parse\<close>. None of them is code of the repository, so they are parameters of the
  model, collected in the record \<open>host\<close>. One value of \<open>host\<close> is one snapshot of the
  machine: the same call gives the same answer throughout one \<^verbatim>\<open>loadVectorDB\<close>.

  A JavaScript exception is a value: every operation that can throw returns
  \<open>error + 'a\<close>, \<open>Inl\<close> being the thrown error. The code only ever throws \<^verbatim>\<open>new Error(message)\<close>;
  the \<open>errorKind\<close> records which \<^verbatim>\<open>throw\<close> or \<^verbatim>\<open>reject\<close> of the source built it
  (\<open>HostError\<close>: thrown by a host call such as \<^verbatim>\<open>fs.statSync\<close>).
  Strings are lists of characters; \<^verbatim>\<open>toLowerCase\<close> is modelled on ASCII letters.
  A \<^verbatim>\<open>Buffer\<close> is the list of its bytes, and \<^verbatim>\<open>Buffer.toString()\<close>, which decodes the
  bytes of one buffer as UTF-8, is a call of the host as well.
\<close>

datatype errorKind =
    HostError
  | PathNotFound
  | DetectionFailed
  | AdapterMissing
  | ProcessSpawnFailed
  | ProcessExitNonzero
  | OutputParseFailed
  | AdapterReportedError
  | ExportFailed

datatype error = Error errorKind string

fun kindOf :: "error \<Rightarrow> errorKind" where
  "kindOf (Error k m) = k"

fun message :: "error \<Rightarrow> string" where
  "message (Error k m) = m"

text \<open>What \<^verbatim>\<open>fs.Stats\<close> and \<^verbatim>\<open>fs.Dirent\<close> answer to \<^verbatim>\<open>isFile()\<close> and \<^verbatim>\<open>isDirectory()\<close>.\<close>

datatype fileType = IsFile | IsDirectory | IsOther

datatype dirent = Dirent (d_name: string) (d_type: fileType)

definition isFile :: "fileType \<Rightarrow> bool" where
  "isFile t = (t = IsFile)"

definition isDirectory :: "fileType \<Rightarrow> bool" where
  "isDirectory t = (t = IsDirectory)"

text \<open>
  JSON values as \<^verbatim>\<open>JSON.parse\<close> returns them; \<open>'n\<close> is the type of JavaScript numbers. An
  object is the list of its own properties, each key once (of a key written twice in the
  text \<^verbatim>\<open>JSON.parse\<close> keeps one property).
\<close>

datatype 'n json =
    JNull
  | JBool bool
  | JNumber 'n
  | JString string
  | JArray "'n json list"
  | JObject "(string \<times> 'n json) list"

text \<open>
  What a child process does, as the sequence of events its \<^verbatim>\<open>ChildProcess\<close> object emits:
  \<^verbatim>\<open>stdout.on('data')\<close> and \<^verbatim>\<open>stderr.on('data')\<close> (each carrying one chunk, a \<^verbatim>\<open>Buffer\<close>:
  the bytes the process wrote, cut wherever the pipe delivered them),
  \<^verbatim>\<open>on('close', code)\<close> (\<open>None\<close>: the code is \<^verbatim>\<open>null\<close>, the process was
  killed by a signal) and \<^verbatim>\<open>on('error', error)\<close> carrying \<^verbatim>\<open>error.message\<close>.
\<close>

datatype event =
    StdoutData string
  | StderrData string
  | Close "int option"
  | SpawnError string

record 'n host =
  existsSync :: "string \<Rightarrow> bool"
  statSync :: "string \<Rightarrow> error + fileType"
  readdirSync :: "string \<Rightarrow> error + dirent list"
  path_join :: "string list \<Rightarrow> string"
  path_basename :: "string \<Rightarrow> string"
  path_extname :: "string \<Rightarrow> string"
  config_pythonPath :: "string option"
  process_platform :: string
  spawn :: "string \<Rightarrow> event list"
  JSON_parse :: "string \<Rightarrow> string + 'n json"
  Number_toString :: "'n \<Rightarrow> string"
  in_TypeError_message :: "'n json \<Rightarrow> string"
  ToPrimitive_TypeError_message :: string
  Buffer_toString :: "string \<Rightarrow> string"

section \<open>String helpers of the JavaScript standard library\<close>

definition toLowerChar :: "char \<Rightarrow> char" where
  "toLowerChar c =
     (case map_of (zip ''ABCDEFGHIJKLMNOPQRSTUVWXYZ'' ''abcdefghijklmnopqrstuvwxyz'') c of
        Some l \<Rightarrow> l
      | None \<Rightarrow> c)"

definition toLowerCase :: "string \<Rightarrow> string" where
  "toLowerCase s = map toLowerChar s"

definition endsWith :: "string \<Rightarrow> string \<Rightarrow> bool" where
  "endsWith s suf = (length suf \<le> length s \<and> drop (length s - length suf) s = suf)"

text \<open>A \<^verbatim>\<open>string | null\<close> in a condition: \<^verbatim>\<open>null\<close> and the empty string are falsy.\<close>

fun truthy :: "string option \<Rightarrow> bool" where
  "truthy None = False"
| "truthy (Some s) = (s \<noteq> [])"

section \<open>The loader: detection\<close>

datatype dbType = Faiss | Chroma

text \<open>
  The fields of \<^verbatim>\<open>class VectorDBLoader\<close>: \<^verbatim>\<open>_context\<close> (of which the code reads
  \<^verbatim>\<open>extensionPath\<close> only) and the mutable \<^verbatim>\<open>_detectedPath\<close>.
\<close>

record loader =
  context_extensionPath :: string
  detectedPath :: "string option"

text \<open>
  \<open>hasFaissSuffix name\<close> is the test of lines 114-115 (and 60-62) of \<^verbatim>\<open>VectorDBLoader.ts\<close>.
\<close>

definition hasFaissSuffix :: "string \<Rightarrow> bool" where
  "hasFaissSuffix nm =
     (let lowerName = toLowerCase nm
      in endsWith lowerName ''.faiss'' \<or> endsWith lowerName ''.index'')"

text \<open>The first \<^verbatim>\<open>for\<close> loop of \<^verbatim>\<open>searchForFaissFiles\<close>: the first matching file returns.\<close>

fun faissFileLoop :: "'n host \<Rightarrow> string \<Rightarrow> dirent list \<Rightarrow> string option" where
  "faissFileLoop h dirPath [] = None"
| "faissFileLoop h dirPath (entry # rest) =
     (if isFile (d_type entry) \<and> hasFaissSuffix (d_name entry)
      then Some (path_join h [dirPath, d_name entry])
      else faissFileLoop h dirPath rest)"

text \<open>The first \<^verbatim>\<open>for\<close> loop of \<^verbatim>\<open>searchForChromaDB\<close>.\<close>

fun chromaFileLoop :: "string \<Rightarrow> dirent list \<Rightarrow> string option" where
  "chromaFileLoop dirPath [] = None"
| "chromaFileLoop dirPath (entry # rest) =
     (if isFile (d_type entry) \<and> d_name entry = ''chroma.sqlite3''
      then Some dirPath
      else chromaFileLoop dirPath rest)"

text \<open>The condition of line 125 (and 158): which entries the second loop descends into.\<close>

definition descends :: "dirent \<Rightarrow> bool" where
  "descends entry =
     (isDirectory (d_type entry) \<and> d_name entry \<noteq> ''.'' \<and> d_name entry \<noteq> ''..''
        \<and> d_name entry \<noteq> ''.git'')"

text \<open>
  The second \<^verbatim>\<open>for\<close> loop of both searches, with the recursive call as the parameter
  \<open>search\<close>: an exception of the call leaves the loop, a truthy result returns, anything
  else goes on with the next entry. \<open>Inr None\<close>: the loop ended without returning.
\<close>

fun subdirLoop :: "(dirent \<Rightarrow> error + string option) \<Rightarrow> dirent list \<Rightarrow> error + string option" where
  "subdirLoop search [] = Inr None"
| "subdirLoop search (entry # rest) =
     (if descends entry
      then (case search entry of
              Inl e \<Rightarrow> Inl e
            | Inr found \<Rightarrow> if truthy found then Inr found else subdirLoop search rest)
      else subdirLoop search rest)"

lemma subdirLoop_cong [fundef_cong]:
  "entries = entries' \<Longrightarrow> (\<And>e. e \<in> set entries' \<Longrightarrow> f e = g e)
     \<Longrightarrow> subdirLoop f entries = subdirLoop g entries'"
proof -
  have "(\<forall>e\<in>set es. f e = g e) \<longrightarrow> subdirLoop f es = subdirLoop g es" for es
    by (induction es) (simp_all split: sum.splits)
  then show "entries = entries' \<Longrightarrow> (\<And>e. e \<in> set entries' \<Longrightarrow> f e = g e)
     \<Longrightarrow> subdirLoop f entries = subdirLoop g entries'"
    by blast
qed

text \<open>
  \<^verbatim>\<open>searchForFaissFiles\<close> (lines 103-138). The inner \<open>case\<close> is the \<^verbatim>\<open>try\<close> block, the outer
  one the \<^verbatim>\<open>catch\<close> (which logs) followed by the final \<^verbatim>\<open>return null\<close>.
\<close>

function searchForFaissFiles :: "'n host \<Rightarrow> string \<Rightarrow> nat \<Rightarrow> nat \<Rightarrow> error + string option" where
  "searchForFaissFiles h dirPath currentDepth maxDepth =
     (if currentDepth > maxDepth then Inr None
      else
        (case
           (case readdirSync h dirPath of
              Inl e \<Rightarrow> Inl e
            | Inr entries \<Rightarrow>
                (case faissFileLoop h dirPath entries of
                   Some fullPath \<Rightarrow> Inr (Some fullPath)
                 | None \<Rightarrow>
                     subdirLoop
                       (\<lambda>entry. searchForFaissFiles h (path_join h [dirPath, d_name entry])
                                  (currentDepth + 1) maxDepth)
                       entries))
         of
           Inl e \<Rightarrow> Inr None
         | Inr found \<Rightarrow> Inr found))"
  by pat_completeness auto
termination
  by (relation "measure (\<lambda>(h, dirPath, currentDepth, maxDepth). Suc maxDepth - currentDepth)") auto

declare searchForFaissFiles.simps [simp del]

text \<open>\<^verbatim>\<open>searchForChromaDB\<close> (lines 140-171), of the same shape.\<close>

function searchForChromaDB :: "'n host \<Rightarrow> string \<Rightarrow> nat \<Rightarrow> nat \<Rightarrow> error + string option" where
  "searchForChromaDB h dirPath currentDepth maxDepth =
     (if currentDepth > maxDepth then Inr None
      else
        (case
           (case readdirSync h dirPath of
              Inl e \<Rightarrow> Inl e
            | Inr entries \<Rightarrow>
                (case chromaFileLoop dirPath entries of
                   Some found \<Rightarrow> Inr (Some found)
                 | None \<Rightarrow>
                     subdirLoop
                       (\<lambda>entry. searchForChromaDB h (path_join h [dirPath, d_name entry])
                                  (currentDepth + 1) maxDepth)
                       entries))
         of
           Inl e \<Rightarrow> Inr None
         | Inr found \<Rightarrow> Inr found))"
  by pat_completeness auto
termination
  by (relation "measure (\<lambda>(h, dirPath, currentDepth, maxDepth). Suc maxDepth - currentDepth)") auto

declare searchForChromaDB.simps [simp del]

text \<open>
  The \<^verbatim>\<open>try\<close> block of \<^verbatim>\<open>detectDatabaseType\<close> (lines 57-96). The result pairs what the block
  returns or throws with the loader after the assignments to \<^verbatim>\<open>this._detectedPath\<close>.
\<close>

definition detectBody :: "'n host \<Rightarrow> loader \<Rightarrow> string \<Rightarrow> (error + dbType option) \<times> loader" where
  "detectBody h st dbPath =
     (case statSync h dbPath of
        Inl e \<Rightarrow> (Inl e, st)
      | Inr stat \<Rightarrow>
          if isFile stat then
            (if hasFaissSuffix dbPath
             then (Inr (Some Faiss), st\<lparr>detectedPath := Some dbPath\<rparr>)
             else (Inr None, st))
          else if isDirectory stat then
            (let chromaDbPath = path_join h [dbPath, ''chroma.sqlite3''] in
             if existsSync h chromaDbPath
             then (Inr (Some Chroma), st\<lparr>detectedPath := Some dbPath\<rparr>)
             else
               let faissIndexPath = path_join h [dbPath, ''index.faiss''] in
               if existsSync h faissIndexPath
               then (Inr (Some Faiss), st\<lparr>detectedPath := Some faissIndexPath\<rparr>)
               else
                 (case searchForFaissFiles h dbPath 0 3 of
                    Inl e \<Rightarrow> (Inl e, st)
                  | Inr foundFaiss \<Rightarrow>
                      if truthy foundFaiss
                      then (Inr (Some Faiss), st\<lparr>detectedPath := foundFaiss\<rparr>)
                      else
                        (case searchForChromaDB h dbPath 0 3 of
                           Inl e \<Rightarrow> (Inl e, st)
                         | Inr foundChroma \<Rightarrow>
                             if truthy foundChroma
                             then (Inr (Some Chroma), st\<lparr>detectedPath := foundChroma\<rparr>)
                             else (Inr None, st))))
          else (Inr None, st))"

text \<open>\<^verbatim>\<open>detectDatabaseType\<close> (lines 55-101): the \<^verbatim>\<open>catch\<close> logs and returns \<^verbatim>\<open>null\<close>.\<close>

definition detectDatabaseType :: "'n host \<Rightarrow> loader \<Rightarrow> string \<Rightarrow> (error + dbType option) \<times> loader" where
  "detectDatabaseType h st dbPath =
     (case detectBody h st dbPath of
        (Inl e, st') \<Rightarrow> (Inr None, st')
      | (Inr r, st') \<Rightarrow> (Inr r, st'))"

section \<open>The loader: running the adapter\<close>

text \<open>\<^verbatim>\<open>a || b\<close> on strings, and on a \<^verbatim>\<open>string | null\<close> first operand.\<close>

definition orElse :: "string \<Rightarrow> string \<Rightarrow> string" where
  "orElse a b = (if a \<noteq> [] then a else b)"

definition orElseOpt :: "string option \<Rightarrow> string \<Rightarrow> string" where
  "orElseOpt a b = (case a of None \<Rightarrow> b | Some s \<Rightarrow> orElse s b)"

definition nl :: string where
  "nl = [CHR 0x0A]"

text \<open>An integer in a template literal: its decimal digits; \<^verbatim>\<open>null\<close> prints as \<^verbatim>\<open>null\<close>.\<close>

fun digitsOf :: "nat \<Rightarrow> string" where
  "digitsOf n =
     (if n < 10 then [''0123456789'' ! n]
      else digitsOf (n div 10) @ [''0123456789'' ! (n mod 10)])"

declare digitsOf.simps [simp del]

definition showInt :: "int \<Rightarrow> string" where
  "showInt i = (if i < 0 then ''-'' @ digitsOf (nat (- i)) else digitsOf (nat i))"

definition showCode :: "int option \<Rightarrow> string" where
  "showCode code = (case code of None \<Rightarrow> ''null'' | Some c \<Rightarrow> showInt c)"

fun joinWith :: "string \<Rightarrow> string list \<Rightarrow> string" where
  "joinWith sep [] = []"
| "joinWith sep [x] = x"
| "joinWith sep (x # y # ys) = x @ sep @ joinWith sep (y # ys)"

text \<open>
  A JSON value in a template literal (the language's \<^verbatim>\<open>ToString\<close>); \<open>None\<close>: a
  \<^verbatim>\<open>TypeError\<close> is thrown. An array goes through \<^verbatim>\<open>Array.prototype.join\<close>: its elements
  converted in turn and joined with commas, \<^verbatim>\<open>null\<close> elements printing as nothing. An object
  goes through \<^verbatim>\<open>ToPrimitive\<close>, which calls the property \<^verbatim>\<open>toString\<close>, then \<^verbatim>\<open>valueOf\<close>,
  when it is a function and takes the first result that is not an object: with no key
  \<^verbatim>\<open>toString\<close> of its own the object inherits \<^verbatim>\<open>Object.prototype.toString\<close> and prints
  as \<^verbatim>\<open>[object Object]\<close>; with such a key (whose value, coming from JSON, is never a
  function) only \<^verbatim>\<open>valueOf\<close> is left, which is no function either or returns the object
  itself, and the conversion throws.
\<close>

fun sequenceAll :: "'a option list \<Rightarrow> 'a list option" where
  "sequenceAll [] = Some []"
| "sequenceAll (None # rest) = None"
| "sequenceAll (Some x # rest) = map_option ((#) x) (sequenceAll rest)"

fun js_toString :: "('n \<Rightarrow> string) \<Rightarrow> 'n json \<Rightarrow> string option" where
  "js_toString num JNull = Some ''null''"
| "js_toString num (JBool b) = Some (if b then ''true'' else ''false'')"
| "js_toString num (JNumber n) = Some (num n)"
| "js_toString num (JString s) = Some s"
| "js_toString num (JArray xs) =
     map_option (joinWith '','')
       (sequenceAll (map (\<lambda>x. case x of JNull \<Rightarrow> Some [] | _ \<Rightarrow> js_toString num x) xs))"
| "js_toString num (JObject kvs) =
     (if ''toString'' \<in> set (map fst kvs) then None else Some ''[object Object]'')"

text \<open>
  \<^verbatim>\<open>'error' in vectorData\<close> (line 231): the operator throws a \<^verbatim>\<open>TypeError\<close> when its right
  operand is not an object; an array has no property of that name; an object built by
  \<^verbatim>\<open>JSON.parse\<close> has it exactly when it is one of its keys.
\<close>

fun in_error :: "'n host \<Rightarrow> 'n json \<Rightarrow> string + bool" where
  "in_error h (JObject kvs) = Inr (''error'' \<in> set (map fst kvs))"
| "in_error h (JArray xs) = Inr False"
| "in_error h v = Inl (in_TypeError_message h v)"

text \<open>
  \<^verbatim>\<open>(vectorData as any).error\<close> (\<open>None\<close> is \<^verbatim>\<open>undefined\<close>), and its place in the template
  literal of line 232: the text it contributes, or the message of the \<^verbatim>\<open>TypeError\<close> it
  throws.
\<close>

fun get_error :: "'n json \<Rightarrow> 'n json option" where
  "get_error (JObject kvs) = map_of kvs ''error''"
| "get_error v = None"

definition show_error_field :: "'n host \<Rightarrow> 'n json \<Rightarrow> string + string" where
  "show_error_field h v =
     (case get_error v of
        None \<Rightarrow> Inr ''undefined''
      | Some e \<Rightarrow>
          (case js_toString (Number_toString h) e of
             None \<Rightarrow> Inl (ToPrimitive_TypeError_message h)
           | Some shown \<Rightarrow> Inr shown))"

definition getPythonCommand :: "'n host \<Rightarrow> string" where
  "getPythonCommand h =
     (case config_pythonPath h of
        Some customPython \<Rightarrow>
          if customPython \<noteq> [] then customPython
          else if process_platform h = ''win32'' then ''python'' else ''python3''
      | None \<Rightarrow> if process_platform h = ''win32'' then ''python'' else ''python3'')"

definition pythonScriptPath :: "'n host \<Rightarrow> loader \<Rightarrow> dbType \<Rightarrow> string" where
  "pythonScriptPath h st dbType =
     path_join h [context_extensionPath st, ''python'',
                  if dbType = Faiss then ''faiss_adapter.py'' else ''chroma_adapter.py'']"

text \<open>Lines 191-195: both paths between double quotes, the three parts joined by blanks.\<close>

definition quoted :: "string \<Rightarrow> string" where
  "quoted s = [CHR 0x22] @ s @ [CHR 0x22]"

definition buildCommand :: "string \<Rightarrow> string \<Rightarrow> string \<Rightarrow> string" where
  "buildCommand pythonCommand scriptPath dbPath =
     pythonCommand @ '' '' @ quoted scriptPath @ '' '' @ quoted dbPath"

text \<open>
  The \<^verbatim>\<open>close\<close> listener (lines 216-243). The inner \<open>case\<close> is the \<^verbatim>\<open>try\<close> block, whose
  \<open>Inl\<close> is the message of the \<^verbatim>\<open>SyntaxError\<close> of \<^verbatim>\<open>JSON.parse\<close> or of the \<^verbatim>\<open>TypeError\<close> of
  \<^verbatim>\<open>in\<close> or of the template literal; the outer one is the \<^verbatim>\<open>catch\<close>. The value is how the promise is settled:
  \<open>Inl\<close> by \<^verbatim>\<open>reject\<close>, \<open>Inr\<close> by \<^verbatim>\<open>resolve\<close>.
\<close>

definition onClose :: "'n host \<Rightarrow> string \<Rightarrow> string \<Rightarrow> string \<Rightarrow> int option \<Rightarrow> error + 'n json" where
  "onClose h command outputData errorData code =
     (if code \<noteq> Some 0 then
        Inl (Error ProcessExitNonzero
          (''Python process exited with code '' @ showCode code @ nl @
           ''Command: '' @ command @ nl @
           ''Error: '' @ orElse errorData ''No error output'' @ nl @
           ''Output: '' @ orElse outputData ''No output''))
      else
        (case
           (case JSON_parse h outputData of
              Inl msg \<Rightarrow> Inl msg
            | Inr vectorData \<Rightarrow>
                (case in_error h vectorData of
                   Inl msg \<Rightarrow> Inl msg
                 | Inr hasError \<Rightarrow>
                     if hasError
                     then (case show_error_field h vectorData of
                             Inl msg \<Rightarrow> Inl msg
                           | Inr shown \<Rightarrow>
                               Inr (Inl (Error AdapterReportedError
                                      (''Python adapter error: '' @ shown))))
                     else Inr (Inr vectorData)))
         of
           Inl msg \<Rightarrow>
             Inl (Error OutputParseFailed
               (''Failed to parse Python output: '' @ msg @ nl @
                ''Output: '' @ take 500 outputData @
                (if length outputData > 500 then ''...'' else [])))
         | Inr settlement \<Rightarrow> settlement))"

text \<open>
  The state the listeners share: the two buffers, and how the promise was settled
  (\<open>None\<close>: still pending). A promise is settled once; later calls of \<^verbatim>\<open>resolve\<close> and
  \<^verbatim>\<open>reject\<close> do nothing.
\<close>

record 'n procState =
  outputData :: string
  errorData :: string
  settled :: "(error + 'n json) option"

definition settle :: "error + 'n json \<Rightarrow> 'n procState \<Rightarrow> 'n procState" where
  "settle r ps = (case settled ps of None \<Rightarrow> ps\<lparr>settled := Some r\<rparr> | Some r' \<Rightarrow> ps)"

fun onEvent :: "'n host \<Rightarrow> string \<Rightarrow> string \<Rightarrow> 'n procState \<Rightarrow> event \<Rightarrow> 'n procState" where
  "onEvent h command pythonCommand ps (StdoutData d) =
     ps\<lparr>outputData := outputData ps @ Buffer_toString h d\<rparr>"
| "onEvent h command pythonCommand ps (StderrData d) =
     ps\<lparr>errorData := errorData ps @ Buffer_toString h d\<rparr>"
| "onEvent h command pythonCommand ps (Close code) =
     settle (onClose h command (outputData ps) (errorData ps) code) ps"
| "onEvent h command pythonCommand ps (SpawnError msg) =
     settle (Inl (Error ProcessSpawnFailed
               (''Failed to start Python process: '' @ msg @ nl @
                ''Command: '' @ pythonCommand @ nl @
                ''Make sure Python is installed and in your PATH, or configure vectorExplorer.pythonPath in settings.'')))
            ps"

definition initialProc :: "'n procState" where
  "initialProc = \<lparr>outputData = [], errorData = [], settled = None\<rparr>"

text \<open>The listeners run over the events of one child process, in the order they arrive.\<close>

definition runProcess :: "'n host \<Rightarrow> string \<Rightarrow> string \<Rightarrow> event list \<Rightarrow> 'n procState" where
  "runProcess h command pythonCommand events =
     foldl (onEvent h command pythonCommand) initialProc events"

text \<open>
  \<^verbatim>\<open>loadWithPython\<close> (lines 173-253): how the promise ends (\<open>None\<close>: it never settles)
  and the command lines handed to \<^verbatim>\<open>spawn\<close>.
\<close>

definition loadWithPython ::
  "'n host \<Rightarrow> loader \<Rightarrow> string \<Rightarrow> dbType \<Rightarrow> (error + 'n json) option \<times> string list" where
  "loadWithPython h st dbPath dbType =
     (let scriptPath = pythonScriptPath h st dbType in
      if \<not> existsSync h scriptPath
      then (Some (Inl (Error AdapterMissing (''Python adapter not found: '' @ scriptPath))), [])
      else
        let pythonCommand = getPythonCommand h;
            command = buildCommand pythonCommand scriptPath dbPath
        in (settled (runProcess h command pythonCommand (spawn h command)), [command]))"

text \<open>
  Lines 26-45: the error thrown when detection returned \<^verbatim>\<open>null\<close>. The host calls made
  to build the message can throw themselves.
\<close>

definition detectionFailure :: "'n host \<Rightarrow> string \<Rightarrow> error" where
  "detectionFailure h dbPath =
     (case statSync h dbPath of
        Inl e \<Rightarrow> e
      | Inr stat \<Rightarrow>
          if isFile stat then
            (let ext = path_extname h dbPath in
             Error DetectionFailed
               (''Unable to detect database type for file: '' @ path_basename h dbPath @ nl @
                ''File extension: '' @ orElse ext ''none'' @ nl @
                ''Expected: .faiss or .index file'' @ nl @
                ''Path: '' @ dbPath))
          else if isDirectory stat then
            (case readdirSync h dbPath of
               Inl e \<Rightarrow> e
             | Inr entries \<Rightarrow>
                 (let dirContents = joinWith '', '' (take 10 (map d_name entries)) in
                  Error DetectionFailed
                    (''Unable to detect database type for directory: '' @ path_basename h dbPath @ nl @
                     ''Looking for: chroma.sqlite3, index.faiss, or any .faiss/.index files in subdirectories'' @ nl @
                     ''Directory contains: '' @ dirContents @
                     (if length entries > 10 then ''...'' else []) @ nl @
                     ''Path: '' @ dbPath)))
          else Error DetectionFailed (''Path is neither a file nor a directory: '' @ dbPath))"

text \<open>
  \<^verbatim>\<open>loadVectorDB\<close> (lines 15-53): how its promise ends, the command lines it spawned, and
  the loader it leaves behind.
\<close>

record 'n outcome =
  promise :: "(error + 'n json) option"
  spawned :: "string list"
  after :: loader

definition loadVectorDB :: "'n host \<Rightarrow> loader \<Rightarrow> string \<Rightarrow> 'n outcome" where
  "loadVectorDB h st dbPath =
     (if \<not> existsSync h dbPath
      then \<lparr>promise = Some (Inl (Error PathNotFound (''Path does not exist: '' @ dbPath))),
            spawned = [], after = st\<rparr>
      else
        (case detectDatabaseType h (st\<lparr>detectedPath := None\<rparr>) dbPath of
           (Inl e, st') \<Rightarrow> \<lparr>promise = Some (Inl e), spawned = [], after = st'\<rparr>
         | (Inr None, st') \<Rightarrow>
             \<lparr>promise = Some (Inl (detectionFailure h dbPath)), spawned = [], after = st'\<rparr>
         | (Inr (Some dbType), st') \<Rightarrow>
             (let actualPath = orElseOpt (detectedPath st') dbPath;
                  r = loadWithPython h st' actualPath dbType
              in \<lparr>promise = fst r, spawned = snd r, after = st'\<rparr>)))"

section \<open>The search order, as the specification words it\<close>

text \<open>
  The specification describes the FAISS search as: a bounded-depth recursive search for a
  file whose extension matches the FAISS set, all files of the current directory before
  recursing into subdirectories in directory-listing order, subdirectories outside the
  denylist visited depth-first, first match wins. \<open>spec_faissMatches\<close> lists every match
  in that order; a directory that cannot be listed contributes none.
\<close>

definition faissFile :: "dirent \<Rightarrow> bool" where
  "faissFile e = (isFile (d_type e) \<and> hasFaissSuffix (d_name e))"

function spec_faissMatches :: "'n host \<Rightarrow> string \<Rightarrow> nat \<Rightarrow> nat \<Rightarrow> string list" where
  "spec_faissMatches h dirPath depth maxDepth =
     (if depth > maxDepth then []
      else
        (case readdirSync h dirPath of
           Inl e \<Rightarrow> []
         | Inr entries \<Rightarrow>
             map (\<lambda>e. path_join h [dirPath, d_name e]) (filter faissFile entries)
             @ concat (map (\<lambda>e. spec_faissMatches h (path_join h [dirPath, d_name e])
                                   (depth + 1) maxDepth)
                           (filter descends entries))))"
  by pat_completeness auto
termination
  by (relation "measure (\<lambda>(h, dirPath, depth, maxDepth). Suc maxDepth - depth)") auto

declare spec_faissMatches.simps [simp del]

fun firstOf :: "'a list \<Rightarrow> 'a option" where
  "firstOf [] = None"
| "firstOf (x # xs) = Some x"

text \<open>
  \<open>subdirAt h d names\<close> is the directory reached from \<open>d\<close> by descending through the
  subdirectories \<open>names\<close>, one level per name, each listed in its parent as a directory
  outside the denylist. A file listed in \<open>subdirAt h d names\<close> is nested
  \<open>length names\<close> levels below \<open>d\<close>.
\<close>

fun subdirAt :: "'n host \<Rightarrow> string \<Rightarrow> string list \<Rightarrow> string option" where
  "subdirAt h d [] = Some d"
| "subdirAt h d (n # ns) =
     (case readdirSync h d of
        Inl e \<Rightarrow> None
      | Inr entries \<Rightarrow>
          if (\<exists>e\<in>set entries. d_name e = n \<and> descends e)
          then subdirAt h (path_join h [d, n]) ns
          else None)"

section \<open>Example hosts\<close>

text \<open>
  A small concrete host for evaluating the model: a table of directory listings, a
  \<^verbatim>\<open>path.join\<close> that joins the non-empty segments with \<^verbatim>\<open>/\<close> and answers \<^verbatim>\<open>.\<close> for
  an empty result, a fixed child process, and a \<^verbatim>\<open>JSON.parse\<close> given as a table.
\<close>

definition posixJoin :: "string list \<Rightarrow> string" where
  "posixJoin xs = orElse (joinWith ''/'' (filter (\<lambda>x. x \<noteq> []) xs)) ''.''"

definition posixBasename :: "string \<Rightarrow> string" where
  "posixBasename p = rev (takeWhile (\<lambda>c. c \<noteq> CHR ''/'') (rev p))"

definition posixExtname :: "string \<Rightarrow> string" where
  "posixExtname p =
     (let b = posixBasename p; ext = rev (takeWhile (\<lambda>c. c \<noteq> CHR ''.'') (rev b))
      in if length ext + 1 < length b then ''.'' @ ext else [])"

text \<open>
  The example \<^verbatim>\<open>Buffer.toString()\<close>: the UTF-8 decoder of the Encoding Standard. The
  decoded text is written as UTF-8 again, so a well-formed sequence decodes to itself, and
  each ill-formed one (a byte that cannot start a character, or a character cut short, at
  the end of the buffer too) to the three bytes of the replacement character U+FFFD.
  \<open>countConts need lo hi bs\<close> counts the continuation bytes at the head of \<open>bs\<close>, up to
  \<open>need\<close>, the first of them within \<open>lo\<close> and \<open>hi\<close>.
\<close>

definition byte :: "char \<Rightarrow> nat" where
  "byte c = of_char c"

definition replacement :: string where
  "replacement = [CHR 0xEF, CHR 0xBF, CHR 0xBD]"

definition contsNeeded :: "nat \<Rightarrow> nat" where
  "contsNeeded n =
     (if 0xC2 \<le> n \<and> n \<le> 0xDF then 1
      else if 0xE0 \<le> n \<and> n \<le> 0xEF then 2
      else if 0xF0 \<le> n \<and> n \<le> 0xF4 then 3
      else 0)"

definition secondLo :: "nat \<Rightarrow> nat" where
  "secondLo n = (if n = 0xE0 then 0xA0 else if n = 0xF0 then 0x90 else 0x80)"

definition secondHi :: "nat \<Rightarrow> nat" where
  "secondHi n = (if n = 0xED then 0x9F else if n = 0xF4 then 0x8F else 0xBF)"

fun countConts :: "nat \<Rightarrow> nat \<Rightarrow> nat \<Rightarrow> string \<Rightarrow> nat" where
  "countConts 0 lo hi bs = 0"
| "countConts (Suc m) lo hi [] = 0"
| "countConts (Suc m) lo hi (c # cs) =
     (if lo \<le> byte c \<and> byte c \<le> hi then Suc (countConts m 0x80 0xBF cs) else 0)"

fun utf8Decode :: "string \<Rightarrow> string" where
  "utf8Decode [] = []"
| "utf8Decode (b # bs) =
     (if byte b < 0x80 then b # utf8Decode bs
      else if contsNeeded (byte b) = 0 then replacement @ utf8Decode bs
      else
        (let k = countConts (contsNeeded (byte b)) (secondLo (byte b)) (secondHi (byte b)) bs
         in if k = contsNeeded (byte b)
            then b # take k bs @ utf8Decode (drop k bs)
            else replacement @ utf8Decode (drop k bs)))"

definition exampleHost ::
  "(string \<times> dirent list) list \<Rightarrow> event list \<Rightarrow> (string \<times> int json) list \<Rightarrow> int host" where
  "exampleHost dirs events parses =
     \<lparr>existsSync = (\<lambda>p. p \<in> set (map fst dirs)
                      \<or> (\<exists>(d, es)\<in>set dirs. \<exists>e\<in>set es. posixJoin [d, d_name e] = p)),
      statSync = (\<lambda>p. if p \<in> set (map fst dirs) then Inr IsDirectory
                      else (case [d_type e. (d, es) \<leftarrow> dirs, e \<leftarrow> es, posixJoin [d, d_name e] = p] of
                              t # ts \<Rightarrow> Inr t
                            | [] \<Rightarrow> Inl (Error HostError ''ENOENT''))),
      readdirSync = (\<lambda>p. case map_of dirs p of
                            Some es \<Rightarrow> Inr es
                          | None \<Rightarrow> Inl (Error HostError ''ENOTDIR'')),
      path_join = posixJoin,
      path_basename = posixBasename,
      path_extname = posixExtname,
      config_pythonPath = None,
      process_platform = ''linux'',
      spawn = (\<lambda>command. events),
      JSON_parse = (\<lambda>s. case map_of parses s of
                           Some v \<Rightarrow> Inr v
                         | None \<Rightarrow> Inl ''Unexpected token''),
      Number_toString = showInt,
      in_TypeError_message = (\<lambda>v. ''Cannot use in operator to search for error''),
      ToPrimitive_TypeError_message = ''Cannot convert object to primitive value'',
      Buffer_toString = utf8Decode\<rparr>"

definition adapters :: "string \<times> dirent list" where
  "adapters = (''/ext/python'',
               [Dirent ''faiss_adapter.py'' IsFile, Dirent ''chroma_adapter.py'' IsFile])"

definition loader0 :: loader where
  "loader0 = \<lparr>context_extensionPath = ''/ext'', detectedPath = None\<rparr>"

text \<open>A FAISS file two levels below \<^verbatim>\<open>/db\<close>, and one four levels below \<^verbatim>\<open>/deep\<close>.\<close>

definition nestedDirs :: "(string \<times> dirent list) list" where
  "nestedDirs =
     [(''/db'', [Dirent ''notes.txt'' IsFile, Dirent ''.git'' IsDirectory, Dirent ''a'' IsDirectory]),
      (''/db/.git'', [Dirent ''packed.index'' IsFile]),
      (''/db/a'', [Dirent ''b'' IsDirectory]),
      (''/db/a/b'', [Dirent ''Store.FAISS'' IsFile]),
      (''/deep'', [Dirent ''1'' IsDirectory]),
      (''/deep/1'', [Dirent ''2'' IsDirectory]),
      (''/deep/1/2'', [Dirent ''3'' IsDirectory]),
      (''/deep/1/2/3'', [Dirent ''4'' IsDirectory]),
      (''/deep/1/2/3/4'', [Dirent ''x.faiss'' IsFile]),
      adapters]"

text \<open>A directory holding both the Chroma sentinel file and \<^verbatim>\<open>index.faiss\<close>.\<close>

definition bothDirs :: "(string \<times> dirent list) list" where
  "bothDirs =
     [(''/both'', [Dirent ''index.faiss'' IsFile, Dirent ''chroma.sqlite3'' IsFile]),
      adapters]"

text \<open>A directory whose subdirectory \<^verbatim>\<open>locked\<close> cannot be listed.\<close>

definition brokenDirs :: "(string \<times> dirent list) list" where
  "brokenDirs =
     [(''/db'', [Dirent ''locked'' IsDirectory, Dirent ''ok'' IsDirectory]),
      (''/db/ok'', [Dirent ''i.index'' IsFile]),
      adapters]"

text \<open>\<^verbatim>\<open>loadVectorDB\<close> called for each path of a list in turn, on the same loader instance.\<close>

definition loadAll :: "'n host \<Rightarrow> loader \<Rightarrow> string list \<Rightarrow> loader" where
  "loadAll h st paths = foldl (\<lambda>s p. after (loadVectorDB h s p)) st paths"

section \<open>Describing a run of the adapter\<close>

text \<open>
  Which events are chunks of output, and the text the listeners collect from each
  stream: its chunks, each decoded on its own, in the order they arrived.
\<close>

fun isStderr :: "event \<Rightarrow> bool" where
  "isStderr (StderrData d) = True"
| "isStderr e = False"

fun isData :: "event \<Rightarrow> bool" where
  "isData (StdoutData d) = True"
| "isData (StderrData d) = True"
| "isData e = False"

fun stdoutText :: "'n host \<Rightarrow> event list \<Rightarrow> string" where
  "stdoutText h [] = []"
| "stdoutText h (StdoutData d # es) = Buffer_toString h d @ stdoutText h es"
| "stdoutText h (e # es) = stdoutText h es"

fun stderrText :: "'n host \<Rightarrow> event list \<Rightarrow> string" where
  "stderrText h [] = []"
| "stderrText h (StderrData d # es) = Buffer_toString h d @ stderrText h es"
| "stderrText h (e # es) = stderrText h es"

text \<open>The bytes a process wrote to standard output, whatever the chunks they came in.\<close>

fun stdoutBytes :: "event list \<Rightarrow> string" where
  "stdoutBytes [] = []"
| "stdoutBytes (StdoutData d # es) = d @ stdoutBytes es"
| "stdoutBytes (e # es) = stdoutBytes es"

text \<open>The kind of error a call of \<^verbatim>\<open>loadVectorDB\<close> failed with, if it failed.\<close>

definition failureKind :: "'n outcome \<Rightarrow> errorKind option" where
  "failureKind out =
     (case promise out of Some (Inl e) \<Rightarrow> Some (kindOf e) | Some (Inr v) \<Rightarrow> None | None \<Rightarrow> None)"

text \<open>Example outputs of an adapter, and what \<^verbatim>\<open>JSON.parse\<close> makes of them.\<close>

definition errorOutput :: string where
  "errorOutput = ''{'' @ quoted ''error'' @ '':'' @ quoted ''no module named X'' @ ''}''"

definition errorJson :: "int json" where
  "errorJson = JObject [(''error'', JString ''no module named X'')]"

text \<open>A result whose \<^verbatim>\<open>count\<close> is 5 with one record, and whose \<^verbatim>\<open>dimension\<close> is 3 with a vector of length 2.\<close>

definition looseOutput :: string where
  "looseOutput =
     ''{'' @ quoted ''type'' @ '':'' @ quoted ''faiss'' @ '','' @ quoted ''count'' @ '':5,''
     @ quoted ''dimension'' @ '':3,'' @ quoted ''vectors'' @ '':[{'' @ quoted ''id'' @ '':''
     @ quoted ''a'' @ '','' @ quoted ''vector'' @ '':[1,2],'' @ quoted ''text'' @ '':''
     @ quoted ''x'' @ '','' @ quoted ''source'' @ '':'' @ quoted ''s'' @ ''}]}''"

definition looseJson :: "int json" where
  "looseJson =
     JObject [(''type'', JString ''faiss''), (''count'', JNumber 5), (''dimension'', JNumber 3),
       (''vectors'', JArray [JObject [(''id'', JString ''a''),
          (''vector'', JArray [JNumber 1, JNumber 2]),
          (''text'', JString ''x''), (''source'', JString ''s'')]])]"

definition exampleParses :: "(string \<times> int json) list" where
  "exampleParses = [(errorOutput, errorJson), (looseOutput, looseJson), (''null'', JNull)]"

text \<open>
  An adapter whose \<^verbatim>\<open>error\<close> field is an object with a key \<^verbatim>\<open>toString\<close>:
  \<^verbatim>\<open>{"error":{"toString":1}}\<close>.
\<close>

definition unprintableOutput :: string where
  "unprintableOutput =
     ''{'' @ quoted ''error'' @ '':{'' @ quoted ''toString'' @ '':1}}''"

definition unprintableJson :: "int json" where
  "unprintableJson = JObject [(''error'', JObject [(''toString'', JNumber 1)])]"

definition unprintableParses :: "(string \<times> int json) list" where
  "unprintableParses = [(unprintableOutput, unprintableJson)]"

text \<open>
  An adapter that writes the thirteen bytes of \<^verbatim>\<open>{"text":"\<close>, the letter e with an acute
  accent (U+00E9, in UTF-8 the two bytes C3 A9) and \<^verbatim>\<open>"}\<close>; the same bytes delivered in two
  chunks, the first ending between the two bytes of the letter; and the text in which
  each of the two bytes has become the replacement character U+FFFD.
\<close>

definition accentOutput :: string where
  "accentOutput = ''{'' @ quoted ''text'' @ '':'' @ quoted [CHR 0xC3, CHR 0xA9] @ ''}''"

definition accentJson :: "int json" where
  "accentJson = JObject [(''text'', JString [CHR 0xC3, CHR 0xA9])]"

definition accentChunk1 :: string where
  "accentChunk1 = ''{'' @ quoted ''text'' @ '':'' @ [CHR 0x22, CHR 0xC3]"

definition accentChunk2 :: string where
  "accentChunk2 = [CHR 0xA9, CHR 0x22] @ ''}''"

definition replacedOutput :: string where
  "replacedOutput = ''{'' @ quoted ''text'' @ '':'' @ quoted (replacement @ replacement) @ ''}''"

definition replacedJson :: "int json" where
  "replacedJson = JObject [(''text'', JString (replacement @ replacement))]"

definition accentParses :: "(string \<times> int json) list" where
  "accentParses = [(accentOutput, accentJson), (replacedOutput, replacedJson)]"

section \<open>The command line and the shell\<close>

text \<open>
  \<^verbatim>\<open>spawn(command, [], {shell: true})\<close> hands the command line to the host shell, which
  splits it into words. \<open>sh_words\<close> is the word splitting of the POSIX shell for
  command lines made of unquoted text, backslash escapes and double-quoted text:
  blanks separate words; a double quote opens and closes quoted text, in which blanks
  are kept; a backslash takes the next character literally (inside double quotes only
  before \<^verbatim>\<open>$\<close>, a backquote, a double quote or a backslash). The result is \<open>None\<close> when
  the command line is not of that kind: a quote is left open (the shell reports a syntax
  error), or a character that can mean more than itself to the shell (an expansion, an
  operator, a pattern, a single quote) occurs where it is active.
\<close>

definition shBlank :: "char \<Rightarrow> bool" where
  "shBlank c = (c = CHR '' '' \<or> c = CHR 0x09)"

definition shSpecial :: "char \<Rightarrow> bool" where
  "shSpecial c = (c \<in> set (''$`;&|<>()*?[]#~=%!{}'' @ [CHR 0x27, CHR 0x0A]))"

fun addChar :: "string option \<Rightarrow> char \<Rightarrow> string option" where
  "addChar None c = Some [c]"
| "addChar (Some w) c = Some (w @ [c])"

fun endWord :: "string option \<Rightarrow> string list option \<Rightarrow> string list option" where
  "endWord None rest = rest"
| "endWord (Some w) rest = map_option ((#) w) rest"

fun sh_scan :: "bool \<Rightarrow> string option \<Rightarrow> string \<Rightarrow> string list option" where
  "sh_scan False word [] = endWord word (Some [])"
| "sh_scan True word [] = None"
| "sh_scan False word (c # cs) =
     (if shBlank c then endWord word (sh_scan False None cs)
      else if c = CHR 0x22 then sh_scan True (Some (case word of None \<Rightarrow> [] | Some w \<Rightarrow> w)) cs
      else if c = CHR 0x5C then
        (case cs of [] \<Rightarrow> None | d # ds \<Rightarrow> sh_scan False (addChar word d) ds)
      else if shSpecial c then None
      else sh_scan False (addChar word c) cs)"
| "sh_scan True word (c # cs) =
     (if c = CHR 0x22 then sh_scan False word cs
      else if c = CHR 0x5C then
        (case cs of
           [] \<Rightarrow> None
         | d # ds \<Rightarrow>
             if d = CHR ''$'' \<or> d = CHR ''`'' \<or> d = CHR 0x22 \<or> d = CHR 0x5C
             then sh_scan True (addChar word d) ds
             else if d = CHR 0x0A then sh_scan True word ds
             else sh_scan True (addChar (addChar word c) d) ds)
      else if c = CHR ''$'' \<or> c = CHR ''`'' then None
      else sh_scan True (addChar word c) cs)"

definition sh_words :: "string \<Rightarrow> string list option" where
  "sh_words command = sh_scan False None command"

text \<open>
  The characters that stand for themselves inside double quotes, and outside any quotes.
\<close>

definition dqSafe :: "char \<Rightarrow> bool" where
  "dqSafe c = (c \<noteq> CHR 0x22 \<and> c \<noteq> CHR 0x5C \<and> c \<noteq> CHR ''$'' \<and> c \<noteq> CHR ''`'')"

definition plainChar :: "char \<Rightarrow> bool" where
  "plainChar c = (\<not> shBlank c \<and> c \<noteq> CHR 0x22 \<and> c \<noteq> CHR 0x5C \<and> \<not> shSpecial c)"

section \<open>CSV export\<close>

text \<open>
  The interface \<^verbatim>\<open>VectorRecord\<close> of the types module; the field names carry a prefix
  (\<^verbatim>\<open>id\<close> and \<^verbatim>\<open>text\<close> are taken in Isabelle).
\<close>

record 'n VectorRecord =
  vr_id :: string
  vr_vector :: "'n list"
  vr_text :: string
  vr_source :: string
  vr_metadata :: "(string \<times> 'n json) list option"

text \<open>The interface \<^verbatim>\<open>VectorData\<close>.\<close>

record 'n VectorData =
  vd_type :: dbType
  vd_count :: 'n
  vd_dimension :: 'n
  vd_vectors :: "'n VectorRecord list"

text \<open>
  A value handed to the CSV library in a row object: a string, or the number
  \<^verbatim>\<open>vector.vector.length\<close>.
\<close>

datatype cell = CellString string | CellNumber nat

text \<open>
  What \<^verbatim>\<open>csvExporter.ts\<close> calls: \<^verbatim>\<open>JSON.stringify\<close>, \<^verbatim>\<open>stringify\<close> of the library
  \<^verbatim>\<open>csv-stringify/sync\<close> (given the row objects and the \<^verbatim>\<open>columns\<close> option, with
  \<^verbatim>\<open>header: true\<close>) and \<^verbatim>\<open>fs.writeFileSync\<close>.
\<close>

record 'n exportHost =
  JSON_stringify :: "'n json \<Rightarrow> string"
  csv_stringify :: "(string \<times> cell) list list \<Rightarrow> string list \<Rightarrow> error + string"
  writeFileSync :: "string \<Rightarrow> string \<Rightarrow> error + unit"

text \<open>The function mapped over \<^verbatim>\<open>data.vectors\<close> (lines 22-29): one row object per record.\<close>

definition csvRowOf :: "'n exportHost \<Rightarrow> 'n VectorRecord \<Rightarrow> (string \<times> cell) list" where
  "csvRowOf x vector =
     [(''id'', CellString (vr_id vector)),
      (''text'', CellString (vr_text vector)),
      (''source'', CellString (vr_source vector)),
      (''vector'', CellString (JSON_stringify x (JArray (map JNumber (vr_vector vector))))),
      (''dimension'', CellNumber (length (vr_vector vector))),
      (''metadata'', CellString (JSON_stringify x
          (JObject (case vr_metadata vector of None \<Rightarrow> [] | Some m \<Rightarrow> m))))]"

definition columns :: "string list" where
  "columns = [''id'', ''text'', ''source'', ''vector'', ''dimension'', ''metadata'']"

text \<open>
  \<^verbatim>\<open>exportToCSV\<close>, given what the save dialog returned (\<open>None\<close>: it was cancelled). The
  result is the path and the text written (\<open>Inr None\<close>: nothing was written); the inner
  \<open>case\<close> is the \<^verbatim>\<open>try\<close> block, the outer one the \<^verbatim>\<open>catch\<close>.
\<close>

definition exportToCSV ::
  "'n exportHost \<Rightarrow> string option \<Rightarrow> 'n VectorData \<Rightarrow> error + (string \<times> string) option" where
  "exportToCSV x saveUri data =
     (case saveUri of
        None \<Rightarrow> Inr None
      | Some fsPath \<Rightarrow>
          (case
             (let csvData = map (csvRowOf x) (vd_vectors data) in
              case csv_stringify x csvData columns of
                Inl e \<Rightarrow> Inl e
              | Inr csv \<Rightarrow>
                  (case writeFileSync x fsPath csv of
                     Inl e \<Rightarrow> Inl e
                   | Inr u \<Rightarrow> Inr (fsPath, csv)))
           of
             Inl e \<Rightarrow> Inl (Error ExportFailed (''Failed to export CSV: '' @ message e))
           | Inr written \<Rightarrow> Inr (Some written)))"

text \<open>
  Reading a CSV file back gives a table of strings. \<open>tableOf cols rows\<close> is the table a
  CSV file with a header stands for: the column names, then for each row object the text
  of its cell under each column. \<open>cellAt table r col\<close> is the cell of data row \<open>r\<close>
  under the column headed \<open>col\<close>.
\<close>

definition cellText :: "cell \<Rightarrow> string" where
  "cellText c = (case c of CellString s \<Rightarrow> s | CellNumber n \<Rightarrow> digitsOf n)"

definition tableOf :: "string list \<Rightarrow> (string \<times> cell) list list \<Rightarrow> string list list" where
  "tableOf cols rows =
     cols # map (\<lambda>row. map (\<lambda>c. case map_of row c of Some v \<Rightarrow> cellText v | None \<Rightarrow> []) cols) rows"

fun indexOf :: "'a \<Rightarrow> 'a list \<Rightarrow> nat option" where
  "indexOf a [] = None"
| "indexOf a (x # xs) = (if x = a then Some 0 else map_option Suc (indexOf a xs))"

definition cellAt :: "string list list \<Rightarrow> nat \<Rightarrow> string \<Rightarrow> string option" where
  "cellAt table r col =
     (case table of
        [] \<Rightarrow> None
      | header # rows \<Rightarrow>
          (case indexOf col header of
             None \<Rightarrow> None
           | Some k \<Rightarrow> if r < length rows \<and> k < length (rows ! r) then Some (rows ! r ! k) else None))"

text \<open>
  An example CSV library for evaluating the model: a writer that quotes a field when it
  holds a comma, a double quote or a line break, doubling the quotes inside, and the
  matching reader.
\<close>

definition csvField :: "string \<Rightarrow> string" where
  "csvField s =
     (if (\<exists>c\<in>set s. c = CHR '','' \<or> c = CHR 0x22 \<or> c = CHR 0x0A \<or> c = CHR 0x0D)
      then quoted (concat (map (\<lambda>c. if c = CHR 0x22 then [c, c] else [c]) s))
      else s)"

definition csvWrite :: "(string \<times> cell) list list \<Rightarrow> string list \<Rightarrow> string" where
  "csvWrite rows cols =
     concat (map (\<lambda>cells. joinWith '','' (map csvField cells) @ nl) (tableOf cols rows))"

fun csvScan :: "bool \<Rightarrow> string \<Rightarrow> string list \<Rightarrow> string \<Rightarrow> string list list" where
  "csvScan q field row [] = (if field = [] \<and> row = [] then [] else [row @ [field]])"
| "csvScan False field row (c # cs) =
     (if c = CHR 0x22 then csvScan True field row cs
      else if c = CHR '','' then csvScan False [] (row @ [field]) cs
      else if c = CHR 0x0A then (row @ [field]) # csvScan False [] [] cs
      else csvScan False (field @ [c]) row cs)"
| "csvScan True field row (c # cs) =
     (if c = CHR 0x22 then
        (case cs of
           [] \<Rightarrow> csvScan False field row cs
         | d # ds \<Rightarrow> if d = CHR 0x22 then csvScan True (field @ [d]) row ds
                     else csvScan False field row cs)
      else csvScan True (field @ [c]) row cs)"

definition csvRead :: "string \<Rightarrow> string list list" where
  "csvRead s = csvScan False [] [] s"

fun showJson :: "int json \<Rightarrow> string" where
  "showJson JNull = ''null''"
| "showJson (JBool b) = (if b then ''true'' else ''false'')"
| "showJson (JNumber n) = showInt n"
| "showJson (JString s) = quoted s"
| "showJson (JArray xs) = ''['' @ joinWith '','' (map showJson xs) @ '']''"
| "showJson (JObject kvs) = ''{'' @ joinWith '','' (map (\<lambda>(k, v). quoted k @ '':'' @ showJson v) kvs) @ ''}''"

definition exampleExport :: "int exportHost" where
  "exampleExport =
     \<lparr>JSON_stringify = showJson,
      csv_stringify = (\<lambda>rows cols. Inr (csvWrite rows cols)),
      writeFileSync = (\<lambda>p s. Inr ())\<rparr>"

definition exampleData :: "int VectorData" where
  "exampleData =
     \<lparr>vd_type = Faiss, vd_count = 2, vd_dimension = 3,
      vd_vectors =
        [\<lparr>vr_id = ''a'', vr_vector = [1, 2, 3], vr_text = ''x, '' @ quoted ''y'' @ nl @ ''z'',
          vr_source = ''s.txt'', vr_metadata = None\<rparr>,
         \<lparr>vr_id = ''b'', vr_vector = [4, - 5], vr_text = [], vr_source = ''dir/t, u'',
          vr_metadata = Some [(''page'', JNumber 7)]\<rparr>]\<rparr>"

section \<open>The search returns the first match of the specified order\<close>

lemma faissFileLoop_first:
  "faissFileLoop h d es = firstOf (map (\<lambda>e. path_join h [d, d_name e]) (filter faissFile es))"
  by (induction es) (simp_all add: faissFile_def)

lemma firstOf_append: "firstOf (xs @ ys) = (case firstOf xs of Some x \<Rightarrow> Some x | None \<Rightarrow> firstOf ys)"
  by (cases xs) simp_all

lemma truthy_firstOf: "[] \<notin> set xs \<Longrightarrow> truthy (firstOf xs) = (xs \<noteq> [])"
  by (cases xs) auto

lemma subdirLoop_first:
  "(\<And>e. e \<in> set es \<Longrightarrow> descends e \<Longrightarrow> f e = Inr (firstOf (g e)) \<and> [] \<notin> set (g e))
    \<Longrightarrow> subdirLoop f es = Inr (firstOf (concat (map g (filter descends es))))"
proof (induction es)
  case Nil
  then show ?case by simp
next
  case (Cons e es)
  show ?case
  proof (cases "descends e")
    case False
    then show ?thesis using Cons by simp
  next
    case True
    then have fe: "f e = Inr (firstOf (g e))" and ne: "[] \<notin> set (g e)"
      using Cons.prems by simp_all
    have ih: "subdirLoop f es = Inr (firstOf (concat (map g (filter descends es))))"
      using Cons by simp
    show ?thesis
      using True fe ih truthy_firstOf [OF ne]
      by (cases "g e") (simp_all add: firstOf_append)
  qed
qed

lemma spec_faissMatches_nonempty:
  "(\<And>xs. path_join h xs \<noteq> []) \<Longrightarrow> [] \<notin> set (spec_faissMatches h d c m)"
proof (induction h d c m rule: spec_faissMatches.induct)
  case (1 h dirPath depth maxDepth)
  show ?case
  proof (cases "depth > maxDepth")
    case True
    then show ?thesis by (simp add: spec_faissMatches.simps)
  next
    case False
    show ?thesis
    proof (cases "readdirSync h dirPath")
      case (Inl e)
      then show ?thesis using False by (simp add: spec_faissMatches.simps)
    next
      case (Inr entries)
      have "[] \<notin> set (spec_faissMatches h (path_join h [dirPath, d_name e]) (depth + 1) maxDepth)"
        if "e \<in> set entries" "descends e" for e
        using "1.IH" [OF False Inr _ "1.prems"] that by simp
      then show ?thesis
        using False Inr "1.prems" "1.prems" [THEN not_sym]
        by (subst spec_faissMatches.simps) (auto simp: image_iff)
    qed
  qed
qed

lemma search_first:
  "(\<And>xs. path_join h xs \<noteq> []) \<Longrightarrow>
     searchForFaissFiles h d c m = Inr (firstOf (spec_faissMatches h d c m))"
proof (induction h d c m rule: searchForFaissFiles.induct)
  case (1 h dirPath currentDepth maxDepth)
  show ?case
  proof (cases "currentDepth > maxDepth")
    case True
    then show ?thesis by (simp add: searchForFaissFiles.simps spec_faissMatches.simps)
  next
    case False
    show ?thesis
    proof (cases "readdirSync h dirPath")
      case (Inl e)
      then show ?thesis using False by (simp add: searchForFaissFiles.simps spec_faissMatches.simps)
    next
      case (Inr entries)
      let ?g = "\<lambda>e. spec_faissMatches h (path_join h [dirPath, d_name e]) (currentDepth + 1) maxDepth"
      have sub: "faissFileLoop h dirPath entries = None \<Longrightarrow>
        subdirLoop (\<lambda>entry. searchForFaissFiles h (path_join h [dirPath, d_name entry]) (currentDepth + 1) maxDepth) entries
        = Inr (firstOf (concat (map ?g (filter descends entries))))"
      proof (rule subdirLoop_first)
        fix e assume none: "faissFileLoop h dirPath entries = None" and e: "e \<in> set entries" "descends e"
        show "searchForFaissFiles h (path_join h [dirPath, d_name e]) (currentDepth + 1) maxDepth = Inr (firstOf (?g e)) \<and> [] \<notin> set (?g e)"
          using "1.IH" [OF False Inr none e(1) "1.prems"] spec_faissMatches_nonempty [of h, OF "1.prems"]
          by simp
      qed
      show ?thesis
      proof (cases "faissFileLoop h dirPath entries")
        case None
        then show ?thesis
          using False Inr sub [OF None]
          by (simp add: searchForFaissFiles.simps [of h dirPath] spec_faissMatches.simps [of h dirPath] faissFileLoop_first firstOf_append)
      next
        case (Some p)
        then show ?thesis
          using False Inr
          by (simp add: searchForFaissFiles.simps [of h dirPath] spec_faissMatches.simps [of h dirPath] faissFileLoop_first firstOf_append)
      qed
    qed
  qed
qed


lemma matches_if_reached:
  "subdirAt h d ns = Some d' \<Longrightarrow> c + length ns \<le> m \<Longrightarrow> readdirSync h d' = Inr es
     \<Longrightarrow> e \<in> set es \<Longrightarrow> faissFile e
     \<Longrightarrow> path_join h [d', d_name e] \<in> set (spec_faissMatches h d c m)"
proof (induction ns arbitrary: d c)
  case Nil
  then show ?case
    by (subst spec_faissMatches.simps) auto
next
  case (Cons n ns)
  from Cons.prems(1) obtain entries e0 where
    rd: "readdirSync h d = Inr entries" and e0: "e0 \<in> set entries" "d_name e0 = n" "descends e0"
    and sub: "subdirAt h (path_join h [d, n]) ns = Some d'"
    by (auto split: sum.splits if_splits)
  have "path_join h [d', d_name e] \<in> set (spec_faissMatches h (path_join h [d, n]) (c + 1) m)"
    using Cons.IH [OF sub _ Cons.prems(3,4,5)] Cons.prems(2) by simp
  moreover have "\<not> c > m" using Cons.prems(2) by simp
  ultimately show ?case
    using rd e0 by (subst spec_faissMatches.simps) auto
qed

lemma reached_if_matches:
  "x \<in> set (spec_faissMatches h d c m) \<Longrightarrow>
     \<exists>ns d' es e. c + length ns \<le> m \<and> subdirAt h d ns = Some d' \<and> readdirSync h d' = Inr es
        \<and> e \<in> set es \<and> faissFile e \<and> x = path_join h [d', d_name e]"
proof (induction h d c m rule: spec_faissMatches.induct)
  case (1 h dirPath depth maxDepth)
  from "1.prems" have le: "\<not> depth > maxDepth"
    by (subst (asm) spec_faissMatches.simps) (simp split: if_splits)
  have "\<exists>entries. readdirSync h dirPath = Inr entries"
  proof (cases "readdirSync h dirPath")
    case (Inl e)
    then have "spec_faissMatches h dirPath depth maxDepth = []"
      by (simp add: spec_faissMatches.simps)
    with "1.prems" show ?thesis by simp
  next
    case (Inr entries)
    then show ?thesis by simp
  qed
  then obtain entries where rd: "readdirSync h dirPath = Inr entries" ..
  from "1.prems" le rd consider
      (here) e where "e \<in> set entries" "faissFile e" "x = path_join h [dirPath, d_name e]"
    | (below) e0 where "e0 \<in> set entries" "descends e0"
        "x \<in> set (spec_faissMatches h (path_join h [dirPath, d_name e0]) (depth + 1) maxDepth)"
    by (subst (asm) spec_faissMatches.simps) auto
  then show ?case
  proof cases
    case here
    have "depth + length ([]::string list) \<le> maxDepth" using le by simp
    moreover have "subdirAt h dirPath [] = Some dirPath" by simp
    ultimately show ?thesis using rd here by blast
  next
    case below
    from "1.IH" [OF le rd _ below(3)] below(1,2)
    obtain ns d' es e where r: "depth + 1 + length ns \<le> maxDepth"
      "subdirAt h (path_join h [dirPath, d_name e0]) ns = Some d'" "readdirSync h d' = Inr es"
      "e \<in> set es" "faissFile e" "x = path_join h [d', d_name e]"
      by auto
    have "depth + length (d_name e0 # ns) \<le> maxDepth" using r(1) by simp
    moreover have "subdirAt h dirPath (d_name e0 # ns) = Some d'"
      using rd below(1,2) r(2) by auto
    ultimately show ?thesis using r(3-6) by blast
  qed
qed

text \<open>
  Claim C1. For a directory with no direct match (neither \<^verbatim>\<open>chroma.sqlite3\<close> nor
  \<^verbatim>\<open>index.faiss\<close> directly inside), detection classifies FAISS exactly when the
  depth-bounded search (maximum depth 3) has a match, and the resolved path is the first
  match in the order: files of a directory first, then its subdirectories in listing order,
  depth-first. The matches are exactly the files with a FAISS suffix listed in a directory
  at most 3 levels below the input (so a file 2 levels below is a match, and a file 4
  levels below is none); with no match the result is that of the Chroma search, a failure
  when that finds nothing either.
\<close>

theorem faiss_search_first_match:
  assumes dir: "statSync h dbPath = Inr IsDirectory"
    and noChroma: "\<not> existsSync h (path_join h [dbPath, ''chroma.sqlite3''])"
    and noIndex: "\<not> existsSync h (path_join h [dbPath, ''index.faiss''])"
    and joined: "\<And>segments. path_join h segments \<noteq> []"
  shows "detectDatabaseType h st dbPath =
           (case firstOf (spec_faissMatches h dbPath 0 3) of
              Some found \<Rightarrow> (Inr (Some Faiss), st\<lparr>detectedPath := Some found\<rparr>)
            | None \<Rightarrow>
                (case searchForChromaDB h dbPath 0 3 of
                   Inl e \<Rightarrow> (Inr None, st)
                 | Inr foundChroma \<Rightarrow>
                     if truthy foundChroma
                     then (Inr (Some Chroma), st\<lparr>detectedPath := foundChroma\<rparr>)
                     else (Inr None, st)))
         \<and> (\<forall>x. x \<in> set (spec_faissMatches h dbPath 0 3) \<longleftrightarrow>
                (\<exists>names d entries e.
                   length names \<le> 3 \<and> subdirAt h dbPath names = Some d
                   \<and> readdirSync h d = Inr entries \<and> e \<in> set entries \<and> faissFile e
                   \<and> x = path_join h [d, d_name e]))"
proof
  have search: "searchForFaissFiles h dbPath 0 3 = Inr (firstOf (spec_faissMatches h dbPath 0 3))"
    using joined by (rule search_first)
  have nonempty: "[] \<notin> set (spec_faissMatches h dbPath 0 3)"
    using joined by (rule spec_faissMatches_nonempty)
  show "detectDatabaseType h st dbPath =
           (case firstOf (spec_faissMatches h dbPath 0 3) of
              Some found \<Rightarrow> (Inr (Some Faiss), st\<lparr>detectedPath := Some found\<rparr>)
            | None \<Rightarrow>
                (case searchForChromaDB h dbPath 0 3 of
                   Inl e \<Rightarrow> (Inr None, st)
                 | Inr foundChroma \<Rightarrow>
                     if truthy foundChroma
                     then (Inr (Some Chroma), st\<lparr>detectedPath := foundChroma\<rparr>)
                     else (Inr None, st)))"
  proof (cases "spec_faissMatches h dbPath 0 3")
    case Nil
    then show ?thesis
      using dir noChroma noIndex search
      by (simp add: detectDatabaseType_def detectBody_def isFile_def isDirectory_def
               split: sum.splits)
  next
    case (Cons found rest)
    then have "found \<noteq> []" using nonempty by auto
    then show ?thesis
      using dir noChroma noIndex search Cons
      by (simp add: detectDatabaseType_def detectBody_def isFile_def isDirectory_def)
  qed
next
  show "\<forall>x. x \<in> set (spec_faissMatches h dbPath 0 3) \<longleftrightarrow>
                (\<exists>names d entries e.
                   length names \<le> 3 \<and> subdirAt h dbPath names = Some d
                   \<and> readdirSync h d = Inr entries \<and> e \<in> set entries \<and> faissFile e
                   \<and> x = path_join h [d, d_name e])"
  proof (intro allI iffI)
    fix x assume "x \<in> set (spec_faissMatches h dbPath 0 3)"
    from reached_if_matches [OF this]
    show "\<exists>names d entries e.
                   length names \<le> 3 \<and> subdirAt h dbPath names = Some d
                   \<and> readdirSync h d = Inr entries \<and> e \<in> set entries \<and> faissFile e
                   \<and> x = path_join h [d, d_name e]"
      by simp
  next
    fix x assume "\<exists>names d entries e.
                   length names \<le> 3 \<and> subdirAt h dbPath names = Some d
                   \<and> readdirSync h d = Inr entries \<and> e \<in> set entries \<and> faissFile e
                   \<and> x = path_join h [d, d_name e]"
    then obtain names d entries e where
      "length names \<le> 3" "subdirAt h dbPath names = Some d" "readdirSync h d = Inr entries"
      "e \<in> set entries" "faissFile e" "x = path_join h [d, d_name e]"
      by blast
    then show "x \<in> set (spec_faissMatches h dbPath 0 3)"
      using matches_if_reached [of h dbPath names d 0 3 entries e] by simp
  qed
qed

lemma exampleHost_joined: "path_join (exampleHost dirs events parses) segments \<noteq> []"
  by (simp add: exampleHost_def posixJoin_def orElse_def)

theorem faiss_search_first_match_witness:
  "detectDatabaseType (exampleHost nestedDirs [] []) loader0 ''/db''
     = (Inr (Some Faiss), loader0\<lparr>detectedPath := Some ''/db/a/b/Store.FAISS''\<rparr>)
   \<and> subdirAt (exampleHost nestedDirs [] []) ''/db'' [''a'', ''b''] = Some ''/db/a/b''
   \<and> detectDatabaseType (exampleHost nestedDirs [] []) loader0 ''/deep'' = (Inr None, loader0)
   \<and> subdirAt (exampleHost nestedDirs [] []) ''/deep'' [''1'', ''2'', ''3'', ''4'']
       = Some ''/deep/1/2/3/4''"
proof -
  let ?h = "exampleHost nestedDirs [] []"
  have d1: "statSync ?h ''/db'' = Inr IsDirectory" by code_simp
  have c1: "\<not> existsSync ?h (path_join ?h [''/db'', ''chroma.sqlite3''])" by code_simp
  have i1: "\<not> existsSync ?h (path_join ?h [''/db'', ''index.faiss''])" by code_simp
  have m1: "spec_faissMatches ?h ''/db'' 0 3 = [''/db/a/b/Store.FAISS'']" by code_simp
  have d2: "statSync ?h ''/deep'' = Inr IsDirectory" by code_simp
  have c2: "\<not> existsSync ?h (path_join ?h [''/deep'', ''chroma.sqlite3''])" by code_simp
  have i2: "\<not> existsSync ?h (path_join ?h [''/deep'', ''index.faiss''])" by code_simp
  have m2: "spec_faissMatches ?h ''/deep'' 0 3 = []" by code_simp
  have s2: "searchForChromaDB ?h ''/deep'' 0 3 = Inr None" by code_simp
  have p1: "subdirAt ?h ''/db'' [''a'', ''b''] = Some ''/db/a/b''" by code_simp
  have p2: "subdirAt ?h ''/deep'' [''1'', ''2'', ''3'', ''4''] = Some ''/deep/1/2/3/4''"
    by code_simp
  have r1: "detectDatabaseType ?h loader0 ''/db''
     = (Inr (Some Faiss), loader0\<lparr>detectedPath := Some ''/db/a/b/Store.FAISS''\<rparr>)"
    using faiss_search_first_match [OF d1 c1 i1 exampleHost_joined, of loader0] m1 by simp
  have r2: "detectDatabaseType ?h loader0 ''/deep'' = (Inr None, loader0)"
    using faiss_search_first_match [OF d2 c2 i2 exampleHost_joined, of loader0] m2 s2 by simp
  show ?thesis using r1 r2 p1 p2 by simp
qed

section \<open>Detection never throws\<close>

lemma searchForFaissFiles_total: "\<exists>r. searchForFaissFiles h d c m = Inr r"
  by (subst searchForFaissFiles.simps) (simp split: sum.splits)

lemma searchForChromaDB_total: "\<exists>r. searchForChromaDB h d c m = Inr r"
  by (subst searchForChromaDB.simps) (simp split: sum.splits)

text \<open>
  Claim C4. Detection is total: for every host (whatever its filesystem calls answer or
  throw), every loader state and every path, \<^verbatim>\<open>detectDatabaseType\<close> returns a value
  (a classification or no match) and throws nothing; so do the two recursive searches.
\<close>

theorem detection_never_throws:
  "(\<exists>r. fst (detectDatabaseType h st dbPath) = Inr r)
   \<and> (\<exists>found. searchForFaissFiles h dirPath currentDepth maxDepth = Inr found)
   \<and> (\<exists>found. searchForChromaDB h dirPath currentDepth maxDepth = Inr found)"
proof (intro conjI)
  show "\<exists>r. fst (detectDatabaseType h st dbPath) = Inr r"
    by (simp add: detectDatabaseType_def split: prod.splits sum.splits)
  show "\<exists>found. searchForFaissFiles h dirPath currentDepth maxDepth = Inr found"
    by (rule searchForFaissFiles_total)
  show "\<exists>found. searchForChromaDB h dirPath currentDepth maxDepth = Inr found"
    by (rule searchForChromaDB_total)
qed

theorem detection_never_throws_witness:
  "fst (detectBody (exampleHost brokenDirs [] []) loader0 ''/gone'') = Inl (Error HostError ''ENOENT'')
   \<and> fst (detectDatabaseType (exampleHost brokenDirs [] []) loader0 ''/gone'') = Inr None
   \<and> readdirSync (exampleHost brokenDirs [] []) ''/db/locked'' = Inl (Error HostError ''ENOTDIR'')
   \<and> searchForFaissFiles (exampleHost brokenDirs [] []) ''/db'' 0 3 = Inr (Some ''/db/ok/i.index'')"
proof -
  let ?h = "exampleHost brokenDirs [] []"
  have b: "fst (detectBody ?h loader0 ''/gone'') = Inl (Error HostError ''ENOENT'')"
    by code_simp
  have r: "readdirSync ?h ''/db/locked'' = Inl (Error HostError ''ENOTDIR'')"
    by code_simp
  have s: "searchForFaissFiles ?h ''/db'' 0 3 = Inr (Some ''/db/ok/i.index'')"
    by code_simp
  from detection_never_throws [of ?h loader0 "''/gone''" "''/db''" 0 3]
  obtain x where x: "fst (detectDatabaseType ?h loader0 ''/gone'') = Inr x" by blast
  have "x = None"
    using x b by (simp add: detectDatabaseType_def split: prod.splits sum.splits)
  then show ?thesis using x b r s by simp
qed

section \<open>The Chroma sentinel comes first\<close>

text \<open>
  Claim C6. For every directory that directly contains \<^verbatim>\<open>chroma.sqlite3\<close>, detection
  returns Chroma with the directory itself as the resolved path, whatever else the
  directory contains (an \<^verbatim>\<open>index.faiss\<close> included): no FAISS check is reached.
\<close>

theorem chroma_sentinel_first:
  assumes "statSync h dbPath = Inr IsDirectory"
    and "existsSync h (path_join h [dbPath, ''chroma.sqlite3''])"
  shows "detectDatabaseType h st dbPath = (Inr (Some Chroma), st\<lparr>detectedPath := Some dbPath\<rparr>)"
  using assms
  by (simp add: detectDatabaseType_def detectBody_def isFile_def isDirectory_def)

theorem chroma_sentinel_first_witness:
  "existsSync (exampleHost bothDirs [] []) ''/both/index.faiss''
   \<and> detectDatabaseType (exampleHost bothDirs [] []) loader0 ''/both''
       = (Inr (Some Chroma), loader0\<lparr>detectedPath := Some ''/both''\<rparr>)"
proof -
  let ?h = "exampleHost bothDirs [] []"
  have d: "statSync ?h ''/both'' = Inr IsDirectory" by code_simp
  have c: "existsSync ?h (path_join ?h [''/both'', ''chroma.sqlite3''])" by code_simp
  have i: "existsSync ?h ''/both/index.faiss''" by code_simp
  show ?thesis using chroma_sentinel_first [OF d c, of loader0] i by simp
qed

section \<open>A path that does not exist\<close>

text \<open>
  Claim C5. For every input path that does not exist, \<^verbatim>\<open>loadVectorDB\<close> fails with the
  error whose message is \<^verbatim>\<open>Path does not exist: \<close> followed by the input path, and no
  subprocess is spawned (the loader is left as it was).
\<close>

theorem missing_path_fails_before_spawn:
  assumes "\<not> existsSync h dbPath"
  shows "loadVectorDB h st dbPath =
           \<lparr>promise = Some (Inl (Error PathNotFound (''Path does not exist: '' @ dbPath))),
            spawned = [], after = st\<rparr>"
  using assms by (simp add: loadVectorDB_def)

theorem missing_path_fails_before_spawn_witness:
  "loadVectorDB (exampleHost bothDirs [StdoutData ''{}'', Close (Some 0)] [(''{}'', JObject [])])
       loader0 ''/nowhere/index.faiss''
     = \<lparr>promise = Some (Inl (Error PathNotFound ''Path does not exist: /nowhere/index.faiss'')),
        spawned = [], after = loader0\<rparr>"
proof -
  let ?h = "exampleHost bothDirs [StdoutData ''{}'', Close (Some 0)] [(''{}'', JObject [])]"
  have n: "\<not> existsSync ?h ''/nowhere/index.faiss''" by code_simp
  show ?thesis using missing_path_fails_before_spawn [OF n, of loader0] by simp
qed

section \<open>The stored path does not leak between calls\<close>

lemma detectBody_after:
  "snd (detectBody h st p) = st\<lparr>detectedPath := detectedPath (snd (detectBody h st p))\<rparr>"
  by (simp add: detectBody_def Let_def split: sum.splits)

lemma detectDatabaseType_after:
  "snd (detectDatabaseType h st p) = st\<lparr>detectedPath := detectedPath (snd (detectDatabaseType h st p))\<rparr>"
proof -
  obtain r st' where b: "detectBody h st p = (r, st')"
    by (cases "detectBody h st p")
  with detectBody_after [of h st p] have "st' = st\<lparr>detectedPath := detectedPath st'\<rparr>"
    by simp
  then show ?thesis
    using b by (cases r) (simp_all add: detectDatabaseType_def)
qed

lemma loadVectorDB_after:
  "after (loadVectorDB h st p) = st\<lparr>detectedPath := detectedPath (after (loadVectorDB h st p))\<rparr>"
proof (cases "existsSync h p")
  case False
  then show ?thesis by (simp add: loadVectorDB_def)
next
  case True
  obtain r st' where b: "detectDatabaseType h (st\<lparr>detectedPath := None\<rparr>) p = (r, st')"
    by (cases "detectDatabaseType h (st\<lparr>detectedPath := None\<rparr>) p")
  with detectDatabaseType_after [of h "st\<lparr>detectedPath := None\<rparr>" p]
  have "st' = st\<lparr>detectedPath := detectedPath st'\<rparr>"
    by simp
  moreover have "after (loadVectorDB h st p) = st'"
    using True b by (simp add: loadVectorDB_def Let_def split: sum.splits option.splits)
  ultimately show ?thesis by simp
qed

lemma loadAll_after: "\<exists>d. loadAll h st paths = st\<lparr>detectedPath := d\<rparr>"
proof (induction paths rule: rev_induct)
  case Nil
  have "loadAll h st [] = st\<lparr>detectedPath := detectedPath st\<rparr>" by (simp add: loadAll_def)
  then show ?case by blast
next
  case (snoc p ps)
  then obtain d where d: "loadAll h st ps = st\<lparr>detectedPath := d\<rparr>" by blast
  have "loadAll h st (ps @ [p]) = after (loadVectorDB h (st\<lparr>detectedPath := d\<rparr>) p)"
    using d by (simp add: loadAll_def)
  also have "\<dots> = st\<lparr>detectedPath := detectedPath (after (loadVectorDB h (st\<lparr>detectedPath := d\<rparr>) p))\<rparr>"
    using loadVectorDB_after [of h "st\<lparr>detectedPath := d\<rparr>" p] by simp
  finally show ?case by blast
qed

lemma detectBody_keeps:
  "(case fst (detectBody h st p) of
      Inl e \<Rightarrow> snd (detectBody h st p) = st
    | Inr None \<Rightarrow> snd (detectBody h st p) = st
    | Inr (Some t) \<Rightarrow> True)"
  by (simp add: detectBody_def Let_def split: sum.splits option.splits)

lemma detectBody_none_keeps:
  "fst (detectBody h st p) = Inr None \<Longrightarrow> snd (detectBody h st p) = st"
  using detectBody_keeps [of h st p] by simp

lemma detectBody_throws_keeps:
  "fst (detectBody h st p) = Inl e \<Longrightarrow> snd (detectBody h st p) = st"
  using detectBody_keeps [of h st p] by simp

lemma detectDatabaseType_none_keeps:
  assumes "fst (detectDatabaseType h st p) = Inr None"
  shows "snd (detectDatabaseType h st p) = st"
proof -
  obtain r st' where b: "detectBody h st p = (r, st')"
    by (cases "detectBody h st p")
  show ?thesis
  proof (cases r)
    case (Inl e)
    then show ?thesis
      using b detectBody_throws_keeps [of h st p e] by (simp add: detectDatabaseType_def)
  next
    case (Inr t)
    then have "t = None" using assms b by (simp add: detectDatabaseType_def)
    then show ?thesis
      using b Inr detectBody_none_keeps [of h st p] by (simp add: detectDatabaseType_def)
  qed
qed

lemma detectBody_result_stateless: "fst (detectBody h st p) = fst (detectBody h st' p)"
  by (simp add: detectBody_def Let_def split: sum.splits)

lemma detectDatabaseType_result_stateless:
  "fst (detectDatabaseType h st p) = fst (detectDatabaseType h st' p)"
proof -
  obtain r s where b: "detectBody h st p = (r, s)"
    by (cases "detectBody h st p")
  obtain r' s' where b': "detectBody h st' p = (r', s')"
    by (cases "detectBody h st' p")
  have "r = r'"
    using detectBody_result_stateless [of h st p st'] b b' by simp
  then show ?thesis
    using b b' by (cases r') (simp_all add: detectDatabaseType_def)
qed

text \<open>
  Claim C10, as stated, fails: not every call resets the stored path. A call for a path
  that does not exist throws at line 18, before the assignment of line 21, and leaves
  the stored path as it was.
\<close>

theorem missing_path_keeps_stored_path_counterexample:
  "\<not> existsSync (exampleHost nestedDirs [] []) ''/nowhere''
   \<and> detectedPath (after (loadVectorDB (exampleHost nestedDirs [] [])
        (loader0\<lparr>detectedPath := Some ''/old/index.faiss''\<rparr>) ''/nowhere''))
     = Some ''/old/index.faiss''"
  by code_simp

text \<open>
  Claim C10, amended. Every call of \<^verbatim>\<open>loadVectorDB\<close> for a path that exists sets
  \<^verbatim>\<open>_detectedPath\<close> to \<^verbatim>\<open>null\<close> before detection runs: the loader it leaves behind is the
  one detection leaves when started with \<^verbatim>\<open>null\<close>, its stored path is \<^verbatim>\<open>null\<close> whenever
  detection finds no database, and the whole outcome (promise, spawned command, loader
  left behind) is the same for every path stored before and after any sequence of earlier
  calls on the same loader. For every path, existing or not, how the promise ends and
  the command line handed to \<^verbatim>\<open>spawn\<close> (which carries the resolved path) do not depend on
  the stored path or on earlier calls, the host being the same.
\<close>

theorem load_resets_stored_path:
  "(existsSync h dbPath \<longrightarrow>
      after (loadVectorDB h st dbPath)
        = snd (detectDatabaseType h (st\<lparr>detectedPath := None\<rparr>) dbPath)
      \<and> (fst (detectDatabaseType h st dbPath) = Inr None
           \<longrightarrow> detectedPath (after (loadVectorDB h st dbPath)) = None)
      \<and> loadVectorDB h (st\<lparr>detectedPath := stored\<rparr>) dbPath = loadVectorDB h st dbPath
      \<and> loadVectorDB h (loadAll h st earlier) dbPath = loadVectorDB h st dbPath)
   \<and> promise (loadVectorDB h (st\<lparr>detectedPath := stored\<rparr>) dbPath)
       = promise (loadVectorDB h st dbPath)
   \<and> spawned (loadVectorDB h (st\<lparr>detectedPath := stored\<rparr>) dbPath)
       = spawned (loadVectorDB h st dbPath)
   \<and> promise (loadVectorDB h (loadAll h st earlier) dbPath) = promise (loadVectorDB h st dbPath)
   \<and> spawned (loadVectorDB h (loadAll h st earlier) dbPath) = spawned (loadVectorDB h st dbPath)"
proof -
  obtain d where d: "loadAll h st earlier = st\<lparr>detectedPath := d\<rparr>"
    using loadAll_after by blast
  have whole: "loadVectorDB h (st\<lparr>detectedPath := x\<rparr>) dbPath = loadVectorDB h st dbPath"
    if "existsSync h dbPath" for x
    using that by (simp add: loadVectorDB_def)
  have seen: "promise (loadVectorDB h (st\<lparr>detectedPath := x\<rparr>) dbPath)
                = promise (loadVectorDB h st dbPath)
              \<and> spawned (loadVectorDB h (st\<lparr>detectedPath := x\<rparr>) dbPath)
                = spawned (loadVectorDB h st dbPath)" for x
    by (simp add: loadVectorDB_def)
  have left: "after (loadVectorDB h st dbPath)
                = snd (detectDatabaseType h (st\<lparr>detectedPath := None\<rparr>) dbPath)"
    if "existsSync h dbPath"
    using that
    by (cases "detectDatabaseType h (st\<lparr>detectedPath := None\<rparr>) dbPath")
       (simp add: loadVectorDB_def Let_def split: sum.splits option.splits)
  have forgotten: "detectedPath (after (loadVectorDB h st dbPath)) = None"
    if ex: "existsSync h dbPath" and none: "fst (detectDatabaseType h st dbPath) = Inr None"
  proof -
    have "fst (detectDatabaseType h (st\<lparr>detectedPath := None\<rparr>) dbPath) = Inr None"
      using none detectDatabaseType_result_stateless [of h "st\<lparr>detectedPath := None\<rparr>" dbPath st]
      by simp
    then have "snd (detectDatabaseType h (st\<lparr>detectedPath := None\<rparr>) dbPath)
                 = st\<lparr>detectedPath := None\<rparr>"
      by (rule detectDatabaseType_none_keeps)
    then show ?thesis using left [OF ex] by simp
  qed
  show ?thesis
    using whole [of stored] whole [of d] seen [of stored] seen [of d] left forgotten d
    by simp
qed

theorem load_resets_stored_path_witness:
  "detectedPath (after (loadVectorDB (exampleHost nestedDirs [StdoutData looseOutput, Close (Some 0)] exampleParses)
       (loader0\<lparr>detectedPath := Some ''/old/index.faiss''\<rparr>) ''/deep'')) = None
   \<and> detectedPath (loadAll (exampleHost nestedDirs [StdoutData looseOutput, Close (Some 0)] exampleParses)
       loader0 [''/deep/1/2/3/4/x.faiss'']) = Some ''/deep/1/2/3/4/x.faiss''
   \<and> spawned (loadVectorDB (exampleHost nestedDirs [StdoutData looseOutput, Close (Some 0)] exampleParses)
       (loadAll (exampleHost nestedDirs [StdoutData looseOutput, Close (Some 0)] exampleParses)
          loader0 [''/deep/1/2/3/4/x.faiss'']) ''/db'')
     = [buildCommand ''python3'' ''/ext/python/faiss_adapter.py'' ''/db/a/b/Store.FAISS'']"
proof -
  let ?h = "exampleHost nestedDirs [StdoutData looseOutput, Close (Some 0)] exampleParses"
  let ?old = "loader0\<lparr>detectedPath := Some ''/old/index.faiss''\<rparr>"
  have ex: "existsSync ?h ''/deep''" by code_simp
  have none: "fst (detectDatabaseType ?h ?old ''/deep'') = Inr None" by code_simp
  have stored: "detectedPath (loadAll ?h loader0 [''/deep/1/2/3/4/x.faiss''])
                  = Some ''/deep/1/2/3/4/x.faiss''"
    by code_simp
  have fresh: "spawned (loadVectorDB ?h loader0 ''/db'')
                 = [buildCommand ''python3'' ''/ext/python/faiss_adapter.py'' ''/db/a/b/Store.FAISS'']"
    by code_simp
  note at_deep = load_resets_stored_path [where h = ?h and st = ?old and dbPath = "''/deep''"
        and stored = None and earlier = "[]", THEN conjunct1, rule_format, OF ex]
  have reset: "detectedPath (after (loadVectorDB ?h ?old ''/deep'')) = None"
    using at_deep [THEN conjunct2, THEN conjunct1, rule_format, OF none] .
  have again: "spawned (loadVectorDB ?h (loadAll ?h loader0 [''/deep/1/2/3/4/x.faiss'']) ''/db'')
                 = spawned (loadVectorDB ?h loader0 ''/db'')"
    using load_resets_stored_path [where h = ?h and st = loader0 and dbPath = "''/db''"
        and stored = None and earlier = "[''/deep/1/2/3/4/x.faiss'']"]
    by simp
  show ?thesis using reset stored again fresh by simp
qed

section \<open>The listeners of the child process\<close>

lemma foldl_onEvent_buffers:
  "outputData (foldl (onEvent h cmd py) ps es) = outputData ps @ stdoutText h es
   \<and> errorData (foldl (onEvent h cmd py) ps es) = errorData ps @ stderrText h es"
proof (induction es arbitrary: ps)
  case Nil
  then show ?case by simp
next
  case (Cons e es)
  then show ?case by (cases e) (simp_all add: settle_def split: option.splits)
qed

lemma runProcess_buffers:
  "outputData (runProcess h cmd py es) = stdoutText h es
   \<and> errorData (runProcess h cmd py es) = stderrText h es"
  using foldl_onEvent_buffers [of h cmd py initialProc es]
  by (simp add: runProcess_def initialProc_def)

lemma runProcess_close:
  "runProcess h cmd py (es @ [Close code]) =
     settle (onClose h cmd (stdoutText h es) (stderrText h es) code) (runProcess h cmd py es)"
  using runProcess_buffers [of h cmd py es] by (simp add: runProcess_def)

lemma foldl_onEvent_pending:
  "\<forall>e\<in>set es. isData e \<Longrightarrow> settled (foldl (onEvent h cmd py) ps es) = settled ps"
proof (induction es arbitrary: ps)
  case Nil
  then show ?case by simp
next
  case (Cons e es)
  then show ?case by (cases e) simp_all
qed

lemma run_then_close:
  assumes "\<forall>e\<in>set es. isData e"
  shows "settled (runProcess h cmd py (es @ [Close code]))
           = Some (onClose h cmd (stdoutText h es) (stderrText h es) code)"
proof -
  have "settled (runProcess h cmd py es) = None"
    using foldl_onEvent_pending [OF assms, of h cmd py initialProc]
    by (simp add: runProcess_def initialProc_def)
  then show ?thesis
    by (simp add: runProcess_close settle_def)
qed

lemma onClose_zero: "onClose h cmd out err (Some 0) = onClose h cmd out err' (Some 0)"
  by (simp add: onClose_def)

lemma onEvent_view:
  assumes "\<not> isStderr e" and "\<forall>code. e = Close code \<longrightarrow> code = Some 0"
    and "outputData ps = outputData ps'" and "settled ps = settled ps'"
  shows "outputData (onEvent h cmd py ps e) = outputData (onEvent h cmd py ps' e)
         \<and> settled (onEvent h cmd py ps e) = settled (onEvent h cmd py ps' e)"
proof (cases e)
  case (StdoutData d)
  then show ?thesis using assms by simp
next
  case (StderrData d)
  then show ?thesis using assms by simp
next
  case (Close code)
  then have "code = Some 0" using assms(2) by simp
  then show ?thesis
    using Close assms(3,4) onClose_zero [of h cmd "outputData ps'" "errorData ps" "errorData ps'"]
    by (cases "settled ps'") (simp_all add: settle_def)
next
  case (SpawnError msg)
  then show ?thesis
    using assms(3,4) by (cases "settled ps'") (simp_all add: settle_def)
qed

lemma onEvent_stderr_view:
  "outputData (onEvent h cmd py ps (StderrData d)) = outputData ps
   \<and> settled (onEvent h cmd py ps (StderrData d)) = settled ps"
  by simp

lemma foldl_onEvent_filter:
  "\<forall>code. Close code \<in> set es \<longrightarrow> code = Some 0 \<Longrightarrow>
   outputData ps = outputData ps' \<Longrightarrow> settled ps = settled ps' \<Longrightarrow>
   outputData (foldl (onEvent h cmd py) ps es)
     = outputData (foldl (onEvent h cmd py) ps' (filter (\<lambda>e. \<not> isStderr e) es))
   \<and> settled (foldl (onEvent h cmd py) ps es)
     = settled (foldl (onEvent h cmd py) ps' (filter (\<lambda>e. \<not> isStderr e) es))"
proof (induction es arbitrary: ps ps')
  case Nil
  then show ?case by simp
next
  case (Cons e es)
  have rest: "\<forall>code. Close code \<in> set es \<longrightarrow> code = Some 0" using Cons.prems(1) by simp
  show ?case
  proof (cases "isStderr e")
    case True
    then obtain d where e: "e = StderrData d" by (cases e) simp_all
    have "outputData (onEvent h cmd py ps e) = outputData ps'"
      and "settled (onEvent h cmd py ps e) = settled ps'"
      using e Cons.prems(2,3) by simp_all
    from Cons.IH [OF rest this] show ?thesis using True by simp
  next
    case False
    have "\<forall>code. e = Close code \<longrightarrow> code = Some 0" using Cons.prems(1) by simp
    from onEvent_view [OF False this Cons.prems(2,3), of h cmd py]
    have "outputData (onEvent h cmd py ps e) = outputData (onEvent h cmd py ps' e)"
      and "settled (onEvent h cmd py ps e) = settled (onEvent h cmd py ps' e)"
      by simp_all
    from Cons.IH [OF rest this] show ?thesis using False by simp
  qed
qed

lemma close_in_filter:
  "Close code \<in> set (filter (\<lambda>e. \<not> isStderr e) es) \<longleftrightarrow> Close code \<in> set es"
  by auto

lemma runProcess_ignores_stderr:
  assumes same: "filter (\<lambda>e. \<not> isStderr e) es1 = filter (\<lambda>e. \<not> isStderr e) es2"
    and zero: "\<forall>code. Close code \<in> set es1 \<longrightarrow> code = Some 0"
  shows "settled (runProcess h cmd py es1) = settled (runProcess h cmd py es2)"
proof -
  have zero2: "\<forall>code. Close code \<in> set es2 \<longrightarrow> code = Some 0"
    using zero close_in_filter [of _ es1] close_in_filter [of _ es2] same by metis
  have "settled (runProcess h cmd py es1)
          = settled (foldl (onEvent h cmd py) initialProc (filter (\<lambda>e. \<not> isStderr e) es1))"
    using foldl_onEvent_filter [OF zero, of initialProc initialProc h cmd py]
    by (simp add: runProcess_def)
  moreover have "settled (runProcess h cmd py es2)
          = settled (foldl (onEvent h cmd py) initialProc (filter (\<lambda>e. \<not> isStderr e) es2))"
    using foldl_onEvent_filter [OF zero2, of initialProc initialProc h cmd py]
    by (simp add: runProcess_def)
  ultimately show ?thesis using same by simp
qed

lemma in_error_spawn: "in_error (h\<lparr>spawn := r\<rparr>) v = in_error h v"
  by (cases v) simp_all

lemma onClose_spawn: "onClose (h\<lparr>spawn := r\<rparr>) cmd out err code = onClose h cmd out err code"
  by (simp add: onClose_def show_error_field_def in_error_spawn split: sum.splits option.splits)

lemma onEvent_spawn: "onEvent (h\<lparr>spawn := r\<rparr>) cmd py ps e = onEvent h cmd py ps e"
  by (cases e) (simp_all add: onClose_spawn)

lemma runProcess_spawn: "runProcess (h\<lparr>spawn := r\<rparr>) cmd py es = runProcess h cmd py es"
proof -
  have "onEvent (h\<lparr>spawn := r\<rparr>) cmd py = onEvent h cmd py"
    by (intro ext) (rule onEvent_spawn)
  then show ?thesis by (simp add: runProcess_def)
qed

text \<open>
  The two streams are kept apart: when the process closes, the text handed to
  \<^verbatim>\<open>JSON.parse\<close> is made of the chunks that arrived on standard output only, and two runs
  that differ only in what arrives on standard error (how much, and where between the
  other events), and that do not close with a non-zero code, end \<^verbatim>\<open>loadWithPython\<close> in
  the same way.
\<close>

lemma streams_kept_apart:
  assumes same: "filter (\<lambda>e. \<not> isStderr e) es1 = filter (\<lambda>e. \<not> isStderr e) es2"
    and zero: "\<forall>code. Close code \<in> set es1 \<longrightarrow> code = Some 0"
  shows "runProcess h cmd py (es @ [Close code])
           = settle (onClose h cmd (stdoutText h es) (stderrText h es) code) (runProcess h cmd py es)
         \<and> onClose h cmd out err (Some 0) = onClose h cmd out err' (Some 0)
         \<and> loadWithPython (h\<lparr>spawn := \<lambda>command. es1\<rparr>) st dbPath dbType
             = loadWithPython (h\<lparr>spawn := \<lambda>command. es2\<rparr>) st dbPath dbType"
proof (intro conjI)
  show "runProcess h cmd py (es @ [Close code])
           = settle (onClose h cmd (stdoutText h es) (stderrText h es) code) (runProcess h cmd py es)"
    by (rule runProcess_close)
  show "onClose h cmd out err (Some 0) = onClose h cmd out err' (Some 0)"
    by (rule onClose_zero)
  show "loadWithPython (h\<lparr>spawn := \<lambda>command. es1\<rparr>) st dbPath dbType
             = loadWithPython (h\<lparr>spawn := \<lambda>command. es2\<rparr>) st dbPath dbType"
    using runProcess_ignores_stderr [OF same zero, of h]
    by (simp add: loadWithPython_def Let_def runProcess_spawn pythonScriptPath_def
          getPythonCommand_def)
qed

text \<open>
  Where each chunk decodes on its own (as every chunk of ASCII bytes does under UTF-8),
  that text is the decoding of the bytes written to standard output.
\<close>

lemma stdoutText_whole:
  assumes "\<And>a b. Buffer_toString h (a @ b) = Buffer_toString h a @ Buffer_toString h b"
  shows "stdoutText h es = Buffer_toString h (stdoutBytes es)"
proof (induction es)
  case Nil
  have "Buffer_toString h ([] @ []) = Buffer_toString h [] @ Buffer_toString h []"
    by (rule assms)
  then show ?case by simp
next
  case (Cons e es)
  then show ?case by (cases e) (simp_all add: assms)
qed

text \<open>
  Claim C7 asks that the text handed to \<^verbatim>\<open>JSON.parse\<close> be exactly the bytes the process
  wrote to standard output. Line 208 decodes each chunk on its own, so a character whose
  bytes fall into two chunks is lost. An adapter that writes \<^verbatim>\<open>{"text":"\<close>, the UTF-8
  bytes C3 A9 and \<^verbatim>\<open>"}\<close> and exits with code 0 loads as written when the bytes arrive in
  one chunk; when the pipe delivers the same bytes in two chunks cut between C3 and A9,
  the text collected holds two replacement characters instead, and the load succeeds
  with that text in place of the adapter's.
\<close>

theorem split_character_reaches_parse_replaced:
  "stdoutBytes [StdoutData accentChunk1, StdoutData accentChunk2, Close (Some 0)]
     = stdoutBytes [StdoutData accentOutput, Close (Some 0)]
   \<and> promise (loadVectorDB
        (exampleHost bothDirs [StdoutData accentOutput, Close (Some 0)] accentParses)
        loader0 ''/both'') = Some (Inr accentJson)
   \<and> outputData (runProcess (exampleHost bothDirs [] accentParses) ''cmd'' ''python3''
        [StdoutData accentChunk1, StdoutData accentChunk2]) = replacedOutput
   \<and> replacedOutput \<noteq> accentOutput
   \<and> promise (loadVectorDB
        (exampleHost bothDirs [StdoutData accentChunk1, StdoutData accentChunk2, Close (Some 0)]
           accentParses)
        loader0 ''/both'') = Some (Inr replacedJson)
   \<and> replacedJson \<noteq> accentJson"
  by code_simp

section \<open>An adapter that reports an error\<close>

text \<open>
  Claim C2, as stated, fails: the exit code is looked at first. An adapter that prints
  \<^verbatim>\<open>{"error":"no module named X"}\<close> and exits with code 1 makes the load fail with the
  exit-code error, not with the adapter's message. Nor is the field's value always
  carried: for \<^verbatim>\<open>{"error":{"toString":1}}\<close> and exit code 0 the template literal of line
  232 throws, and the load fails as a parse failure.
\<close>

theorem error_field_nonzero_exit_counterexample:
  "JSON_parse (exampleHost bothDirs [StdoutData errorOutput, Close (Some 1)] exampleParses) errorOutput
     = Inr errorJson
   \<and> get_error errorJson = Some (JString ''no module named X'')
   \<and> failureKind (loadVectorDB (exampleHost bothDirs [StdoutData errorOutput, Close (Some 1)] exampleParses)
        loader0 ''/both'') = Some ProcessExitNonzero
   \<and> failureKind (loadVectorDB (exampleHost bothDirs [StdoutData errorOutput, Close (Some 1)] exampleParses)
        loader0 ''/both'') \<noteq> Some AdapterReportedError
   \<and> JSON_parse (exampleHost bothDirs [StdoutData unprintableOutput, Close (Some 0)] unprintableParses)
        unprintableOutput = Inr unprintableJson
   \<and> get_error unprintableJson = Some (JObject [(''toString'', JNumber 1)])
   \<and> failureKind (loadVectorDB
        (exampleHost bothDirs [StdoutData unprintableOutput, Close (Some 0)] unprintableParses)
        loader0 ''/both'') = Some OutputParseFailed"
  by code_simp

text \<open>
  Claim C2, amended. For every adapter run (chunks of output, then \<^verbatim>\<open>close\<close>) whose standard
  output parses as a JSON object with an \<^verbatim>\<open>error\<close> field: when the process exits with a
  non-zero code or is killed, the load fails with the exit-code error, whose message
  carries the code, the command and both captured streams; when it exits with code 0 and
  the field's value converts to a string (as every string, number, boolean and \<^verbatim>\<open>null\<close>
  does, a string to itself), the load fails with the message \<^verbatim>\<open>Python adapter error: \<close>
  followed by that string.
\<close>

theorem error_field_fails_load:
  assumes run: "\<forall>e\<in>set es. isData e"
    and parse: "JSON_parse h (stdoutText h es) = Inr (JObject kvs)"
    and field: "map_of kvs ''error'' = Some v"
  shows "(code \<noteq> Some 0 \<longrightarrow>
            settled (runProcess h cmd py (es @ [Close code])) =
              Some (Inl (Error ProcessExitNonzero
                     (''Python process exited with code '' @ showCode code @ nl @
                      ''Command: '' @ cmd @ nl @
                      ''Error: '' @ orElse (stderrText h es) ''No error output'' @ nl @
                      ''Output: '' @ orElse (stdoutText h es) ''No output''))))
         \<and> (code = Some 0 \<longrightarrow> js_toString (Number_toString h) v = Some shown \<longrightarrow>
              settled (runProcess h cmd py (es @ [Close code])) =
                Some (Inl (Error AdapterReportedError (''Python adapter error: '' @ shown))))
         \<and> js_toString (Number_toString h) (JString s) = Some s
         \<and> js_toString (Number_toString h) (JNumber n) = Some (Number_toString h n)
         \<and> js_toString (Number_toString h) (JBool b) = Some (if b then ''true'' else ''false'')
         \<and> js_toString (Number_toString h) JNull = Some ''null''"
proof -
  have "''error'' \<in> set (map fst kvs)"
    using field by (metis map_of_eq_None_iff option.distinct(1) set_map)
  then show ?thesis
    using parse field
    by (simp add: run_then_close [OF run] onClose_def show_error_field_def)
qed

theorem error_field_fails_load_witness:
  "settled (runProcess (exampleHost bothDirs [] exampleParses) ''cmd'' ''python3''
      ([StderrData ''Traceback'', StdoutData errorOutput] @ [Close (Some 0)]))
     = Some (Inl (Error AdapterReportedError ''Python adapter error: no module named X''))
   \<and> promise (loadVectorDB (exampleHost bothDirs [StdoutData errorOutput, Close (Some 0)] exampleParses)
        loader0 ''/both'')
     = Some (Inl (Error AdapterReportedError ''Python adapter error: no module named X''))
   \<and> failureKind (loadVectorDB (exampleHost bothDirs [StdoutData errorOutput, Close None] exampleParses)
        loader0 ''/both'') = Some ProcessExitNonzero"
proof -
  let ?h = "exampleHost bothDirs [] exampleParses"
  let ?es = "[StderrData ''Traceback'', StdoutData errorOutput]"
  have run: "\<forall>e\<in>set ?es. isData e" by simp
  have parse: "JSON_parse ?h (stdoutText ?h ?es) = Inr (JObject [(''error'', JString ''no module named X'')])"
    by code_simp
  have field: "map_of [(''error'', JString ''no module named X'' :: int json)] ''error''
                 = Some (JString ''no module named X'')"
    by simp
  have shown: "js_toString (Number_toString ?h) (JString ''no module named X'')
                 = Some ''no module named X''"
    by simp
  have whole: "promise (loadVectorDB (exampleHost bothDirs [StdoutData errorOutput, Close (Some 0)] exampleParses)
        loader0 ''/both'')
     = Some (Inl (Error AdapterReportedError ''Python adapter error: no module named X''))"
    by code_simp
  have killed: "failureKind (loadVectorDB (exampleHost bothDirs [StdoutData errorOutput, Close None] exampleParses)
        loader0 ''/both'') = Some ProcessExitNonzero"
    by code_simp
  show ?thesis
    using error_field_fails_load [OF run parse field, where cmd = "''cmd''" and py = "''python3''"
        and code = "Some 0" and shown = "''no module named X''"] shown whole killed
    by simp
qed

section \<open>A result is returned as parsed\<close>

text \<open>
  Claim C8, as stated, fails for JSON documents that are not objects or arrays: the
  document \<^verbatim>\<open>null\<close> is valid JSON with no \<^verbatim>\<open>error\<close> field, but \<^verbatim>\<open>'error' in null\<close> throws,
  and the load fails as a parse failure instead of returning the value.
\<close>

theorem primitive_json_rejected_counterexample:
  "JSON_parse (exampleHost bothDirs [StdoutData ''null'', Close (Some 0)] exampleParses) ''null''
     = Inr JNull
   \<and> failureKind (loadVectorDB (exampleHost bothDirs [StdoutData ''null'', Close (Some 0)] exampleParses)
        loader0 ''/both'') = Some OutputParseFailed"
  by code_simp

text \<open>
  Claim C8, amended. For every adapter run that exits with code 0 and prints a JSON
  object without an \<^verbatim>\<open>error\<close> field, or a JSON array, the load succeeds with the parsed value
  itself; no field of it is looked at, so a \<^verbatim>\<open>count\<close> that differs from the number of
  records, or a \<^verbatim>\<open>dimension\<close> that differs from a vector's length, is accepted.
\<close>

theorem parsed_value_returned_verbatim:
  assumes run: "\<forall>e\<in>set es. isData e"
    and parse: "JSON_parse h (stdoutText h es) = Inr v"
    and shape: "v = JArray xs \<or> (v = JObject kvs \<and> ''error'' \<notin> set (map fst kvs))"
  shows "settled (runProcess h cmd py (es @ [Close (Some 0)])) = Some (Inr v)"
  using parse shape
  by (auto simp add: run_then_close [OF run] onClose_def)

theorem parsed_value_returned_verbatim_witness:
  "settled (runProcess (exampleHost bothDirs [] exampleParses) ''cmd'' ''python3''
      ([StdoutData looseOutput] @ [Close (Some 0)])) = Some (Inr looseJson)
   \<and> map_of [(''type'', JString ''faiss''), (''count'', JNumber 5), (''dimension'', JNumber 3),
       (''vectors'', JArray [JObject [(''id'', JString ''a''),
          (''vector'', JArray [JNumber 1, JNumber 2]),
          (''text'', JString ''x''), (''source'', JString ''s'')]])] ''count''
       = Some (JNumber (5 :: int))
   \<and> promise (loadVectorDB (exampleHost bothDirs [StdoutData looseOutput, Close (Some 0)] exampleParses)
        loader0 ''/both'') = Some (Inr looseJson)"
proof -
  let ?h = "exampleHost bothDirs [] exampleParses"
  let ?es = "[StdoutData looseOutput]"
  let ?kvs = "[(''type'', JString ''faiss''), (''count'', JNumber 5), (''dimension'', JNumber 3),
       (''vectors'', JArray [JObject [(''id'', JString ''a''),
          (''vector'', JArray [JNumber 1, JNumber 2]),
          (''text'', JString ''x''), (''source'', JString ''s'')]])] :: (string \<times> int json) list"
  have run: "\<forall>e\<in>set ?es. isData e" by simp
  have parse: "JSON_parse ?h (stdoutText ?h ?es) = Inr looseJson" by code_simp
  have shape: "looseJson = JArray [] \<or> (looseJson = JObject ?kvs \<and> ''error'' \<notin> set (map fst ?kvs))"
    by (simp add: looseJson_def)
  have whole: "promise (loadVectorDB (exampleHost bothDirs [StdoutData looseOutput, Close (Some 0)] exampleParses)
        loader0 ''/both'') = Some (Inr looseJson)"
    by code_simp
  show ?thesis
    using parsed_value_returned_verbatim [OF run parse shape, where cmd = "''cmd''"
        and py = "''python3''"] whole
    by simp
qed

section \<open>Quoting the path for the shell\<close>

text \<open>
  Where the quoting of lines 191-195 is enough: an interpreter name of plain characters,
  and paths in which no double quote, backslash, dollar sign or backquote occurs (blanks
  may), make a command line of exactly three words, the paths unaltered.
\<close>

lemma scan_unquoted:
  "\<forall>c\<in>set s. plainChar c \<Longrightarrow> sh_scan False (Some w) (s @ rest) = sh_scan False (Some (w @ s)) rest"
  by (induction s arbitrary: w) (simp_all add: plainChar_def)

lemma scan_unquoted_start:
  assumes "s \<noteq> []" "\<forall>c\<in>set s. plainChar c"
  shows "sh_scan False None (s @ rest) = sh_scan False (Some s) rest"
proof -
  obtain c cs where s: "s = c # cs" using assms(1) by (cases s) auto
  then have "sh_scan False None (s @ rest) = sh_scan False (Some [c]) (cs @ rest)"
    using assms(2) by (simp add: plainChar_def)
  also have "\<dots> = sh_scan False (Some ([c] @ cs)) rest"
    using assms(2) s by (intro scan_unquoted) simp
  finally show ?thesis using s by simp
qed

lemma scan_double_quoted:
  "\<forall>c\<in>set s. dqSafe c \<Longrightarrow>
   sh_scan True (Some w) (s @ CHR 0x22 # rest) = sh_scan False (Some (w @ s)) rest"
  by (induction s arbitrary: w) (simp_all add: dqSafe_def)

lemma scan_quoted_word:
  assumes "\<forall>c\<in>set s. dqSafe c"
  shows "sh_scan False None (quoted s @ rest) = sh_scan False (Some s) rest"
  using scan_double_quoted [OF assms, of "[]" rest] by (simp add: quoted_def shBlank_def)

lemma quoted_path_one_word:
  assumes "py \<noteq> []" "\<forall>c\<in>set py. plainChar c"
    and "\<forall>c\<in>set scriptPath. dqSafe c" and "\<forall>c\<in>set dbPath. dqSafe c"
  shows "sh_words (buildCommand py scriptPath dbPath) = Some [py, scriptPath, dbPath]"
proof -
  have "sh_words (buildCommand py scriptPath dbPath)
          = sh_scan False (Some py) ('' '' @ quoted scriptPath @ '' '' @ quoted dbPath)"
    using scan_unquoted_start [OF assms(1,2)] by (simp add: sh_words_def buildCommand_def)
  also have "\<dots> = map_option ((#) py) (sh_scan False None (quoted scriptPath @ '' '' @ quoted dbPath))"
    by (simp add: shBlank_def)
  also have "sh_scan False None (quoted scriptPath @ '' '' @ quoted dbPath)
          = sh_scan False (Some scriptPath) ('' '' @ quoted dbPath)"
    by (rule scan_quoted_word [OF assms(3)])
  also have "\<dots> = map_option ((#) scriptPath) (sh_scan False None (quoted dbPath @ []))"
    by (simp add: shBlank_def)
  also have "sh_scan False None (quoted dbPath @ []) = sh_scan False (Some dbPath) []"
    by (rule scan_quoted_word [OF assms(4)])
  finally show ?thesis by simp
qed

text \<open>
  Claim C3 asks that every resolved path reaches the adapter as exactly one argument,
  unaltered. The command line of \<^verbatim>\<open>loadWithPython\<close> puts the path between double quotes
  and escapes nothing in it. A path with a blank arrives whole; the path
  \<^verbatim>\<open>/data/a"b"c.faiss\<close> arrives as \<^verbatim>\<open>/data/abc.faiss\<close>; the path \<^verbatim>\<open>/data/a" "c.faiss\<close> arrives as
  two arguments; and for the path \<^verbatim>\<open>/data/a"b.faiss\<close> the command line leaves a quote open,
  so the shell runs nothing.
\<close>

theorem quote_in_path_breaks_command:
  "sh_words (buildCommand ''python3'' ''/ext/python/faiss_adapter.py'' ''/my data/index.faiss'')
     = Some [''python3'', ''/ext/python/faiss_adapter.py'', ''/my data/index.faiss'']
   \<and> sh_words (buildCommand ''python3'' ''/ext/python/faiss_adapter.py''
        (''/data/a'' @ [CHR 0x22] @ ''b'' @ [CHR 0x22] @ ''c.faiss''))
     = Some [''python3'', ''/ext/python/faiss_adapter.py'', ''/data/abc.faiss'']
   \<and> sh_words (buildCommand ''python3'' ''/ext/python/faiss_adapter.py''
        (''/data/a'' @ [CHR 0x22] @ '' '' @ [CHR 0x22] @ ''c.faiss''))
     = Some [''python3'', ''/ext/python/faiss_adapter.py'', ''/data/a'', ''c.faiss'']
   \<and> sh_words (buildCommand ''python3'' ''/ext/python/faiss_adapter.py''
        (''/data/a'' @ [CHR 0x22] @ ''b.faiss''))
     = None"
  by code_simp

section \<open>Exporting to CSV and reading back\<close>

lemma scan_plain:
  "\<not> (\<exists>c\<in>set s. c = CHR '','' \<or> c = CHR 0x22 \<or> c = CHR 0x0A \<or> c = CHR 0x0D)
     \<Longrightarrow> csvScan False field row (s @ rest) = csvScan False (field @ s) row rest"
  by (induction s arbitrary: field) simp_all

lemma scan_quoted:
  "rest = [] \<or> hd rest \<noteq> CHR 0x22 \<Longrightarrow>
   csvScan True field row (concat (map (\<lambda>c. if c = CHR 0x22 then [c, c] else [c]) s) @ CHR 0x22 # rest)
     = csvScan False (field @ s) row rest"
proof (induction s arbitrary: field)
  case Nil
  then show ?case by (cases rest) auto
next
  case (Cons c s)
  then show ?case by simp
qed

lemma scan_field:
  assumes "rest = [] \<or> hd rest \<noteq> CHR 0x22"
  shows "csvScan False [] row (csvField s @ rest) = csvScan False s row rest"
proof (cases "\<exists>c\<in>set s. c = CHR '','' \<or> c = CHR 0x22 \<or> c = CHR 0x0A \<or> c = CHR 0x0D")
  case True
  then show ?thesis
    using scan_quoted [OF assms, of "[]" row s] by (simp add: csvField_def quoted_def)
next
  case False
  then show ?thesis
    using scan_plain [OF False, of "[]" row rest] by (simp add: csvField_def)
qed

lemma scan_row:
  "cells \<noteq> [] \<Longrightarrow>
   csvScan False [] row (joinWith '','' (map csvField cells) @ nl @ rest)
     = (row @ cells) # csvScan False [] [] rest"
proof (induction cells arbitrary: row)
  case Nil
  then show ?case by simp
next
  case (Cons s cells)
  show ?case
  proof (cases cells)
    case Nil
    then show ?thesis
      using scan_field [of "nl @ rest" row s] by (simp add: nl_def)
  next
    case (Cons t ts)
    have "csvScan False [] row (csvField s @ '','' @ joinWith '','' (map csvField cells) @ nl @ rest)
            = csvScan False s row ('','' @ joinWith '','' (map csvField cells) @ nl @ rest)"
      using scan_field [of "'','' @ joinWith '','' (map csvField cells) @ nl @ rest" row s] by simp
    also have "\<dots> = csvScan False [] (row @ [s]) (joinWith '','' (map csvField cells) @ nl @ rest)"
      by simp
    also have "\<dots> = ((row @ [s]) @ cells) # csvScan False [] [] rest"
      using Cons.IH [of "row @ [s]"] Cons by simp
    finally show ?thesis using Cons by simp
  qed
qed

lemma scan_table:
  "\<forall>cells\<in>set table. cells \<noteq> [] \<Longrightarrow>
   csvScan False [] [] (concat (map (\<lambda>cells. joinWith '','' (map csvField cells) @ nl) table)) = table"
proof (induction table)
  case Nil
  then show ?case by simp
next
  case (Cons cells table)
  then show ?case
    using scan_row [of cells "[]" "concat (map (\<lambda>cells. joinWith '','' (map csvField cells) @ nl) table)"]
    by simp
qed

lemma csvRead_csvWrite:
  "cols \<noteq> [] \<Longrightarrow> csvRead (csvWrite rows cols) = tableOf cols rows"
proof -
  assume "cols \<noteq> []"
  then have "\<forall>cells\<in>set (tableOf cols rows). cells \<noteq> []"
    by (auto simp: tableOf_def)
  then show ?thesis
    by (simp add: csvRead_def csvWrite_def scan_table)
qed

lemma csv_cells:
  assumes "i < length (vd_vectors data)"
  shows "cellAt (tableOf columns (map (csvRowOf x) (vd_vectors data))) i ''text''
           = Some (vr_text (vd_vectors data ! i))
       \<and> cellAt (tableOf columns (map (csvRowOf x) (vd_vectors data))) i ''source''
           = Some (vr_source (vd_vectors data ! i))
       \<and> cellAt (tableOf columns (map (csvRowOf x) (vd_vectors data))) i ''vector''
           = Some (JSON_stringify x (JArray (map JNumber (vr_vector (vd_vectors data ! i)))))"
  using assms
  by (simp add: cellAt_def tableOf_def columns_def csvRowOf_def cellText_def)

text \<open>
  Claim C9. Let the CSV library and the reader used for re-reading form a round trip:
  what the reader makes of the text \<^verbatim>\<open>stringify\<close> returned for some row objects and
  columns is the table of those columns and rows. Then for every \<^verbatim>\<open>VectorData\<close>,
  re-reading the exported file gives one data row per record, in order, whose \<^verbatim>\<open>text\<close> and
  \<^verbatim>\<open>source\<close> cells are the record's fields and whose \<^verbatim>\<open>vector\<close> cell is
  \<^verbatim>\<open>JSON.stringify\<close> of the record's vector.
\<close>

theorem csv_round_trip:
  assumes codec: "\<And>rows cols s. cols \<noteq> [] \<Longrightarrow> csv_stringify x rows cols = Inr s
                     \<Longrightarrow> reader s = tableOf cols rows"
    and exported: "exportToCSV x (Some fsPath) data = Inr (Some (fsPath, csv))"
  shows "length (reader csv) = Suc (length (vd_vectors data))
         \<and> (\<forall>i<length (vd_vectors data).
               cellAt (reader csv) i ''text'' = Some (vr_text (vd_vectors data ! i))
             \<and> cellAt (reader csv) i ''source'' = Some (vr_source (vd_vectors data ! i))
             \<and> cellAt (reader csv) i ''vector''
                 = Some (JSON_stringify x (JArray (map JNumber (vr_vector (vd_vectors data ! i))))))"
proof -
  have "csv_stringify x (map (csvRowOf x) (vd_vectors data)) columns = Inr csv"
    using exported by (simp add: exportToCSV_def Let_def split: sum.splits)
  moreover have "columns \<noteq> []" by (simp add: columns_def)
  ultimately have table: "reader csv = tableOf columns (map (csvRowOf x) (vd_vectors data))"
    using codec by blast
  have "length (reader csv) = Suc (length (vd_vectors data))"
    by (simp add: table tableOf_def)
  then show ?thesis
    using csv_cells [of _ data x] by (simp add: table)
qed

theorem csv_round_trip_witness:
  "exportToCSV exampleExport (Some ''/tmp/out.csv'') exampleData
     = Inr (Some (''/tmp/out.csv'', csvWrite (map (csvRowOf exampleExport) (vd_vectors exampleData)) columns))
   \<and> length (csvRead (csvWrite (map (csvRowOf exampleExport) (vd_vectors exampleData)) columns)) = 3
   \<and> cellAt (csvRead (csvWrite (map (csvRowOf exampleExport) (vd_vectors exampleData)) columns)) 0 ''text''
       = Some (''x, '' @ quoted ''y'' @ nl @ ''z'')
   \<and> cellAt (csvRead (csvWrite (map (csvRowOf exampleExport) (vd_vectors exampleData)) columns)) 1 ''source''
       = Some ''dir/t, u''
   \<and> cellAt (csvRead (csvWrite (map (csvRowOf exampleExport) (vd_vectors exampleData)) columns)) 1 ''vector''
       = Some ''[4,-5]''"
proof -
  let ?csv = "csvWrite (map (csvRowOf exampleExport) (vd_vectors exampleData)) columns"
  have codec: "\<And>rows cols s. cols \<noteq> [] \<Longrightarrow> csv_stringify exampleExport rows cols = Inr s
                     \<Longrightarrow> csvRead s = tableOf cols rows"
    using csvRead_csvWrite by (auto simp: exampleExport_def)
  have exported: "exportToCSV exampleExport (Some ''/tmp/out.csv'') exampleData
                    = Inr (Some (''/tmp/out.csv'', ?csv))"
    by (simp add: exportToCSV_def exampleExport_def)
  have len: "length (vd_vectors exampleData) = 2" by (simp add: exampleData_def)
  have t0: "vr_text (vd_vectors exampleData ! 0) = ''x, '' @ quoted ''y'' @ nl @ ''z''"
    by (simp add: exampleData_def)
  have s1: "vr_source (vd_vectors exampleData ! 1) = ''dir/t, u''"
    by (simp add: exampleData_def)
  have v1: "JSON_stringify exampleExport (JArray (map JNumber (vr_vector (vd_vectors exampleData ! 1))))
              = ''[4,-5]''"
    by code_simp
  from csv_round_trip [where reader = csvRead and x = exampleExport, OF codec exported]
  have n: "length (csvRead ?csv) = Suc (length (vd_vectors exampleData))"
    and cells: "\<forall>i<length (vd_vectors exampleData).
               cellAt (csvRead ?csv) i ''text'' = Some (vr_text (vd_vectors exampleData ! i))
             \<and> cellAt (csvRead ?csv) i ''source'' = Some (vr_source (vd_vectors exampleData ! i))
             \<and> cellAt (csvRead ?csv) i ''vector''
                 = Some (JSON_stringify exampleExport (JArray (map JNumber (vr_vector (vd_vectors exampleData ! i)))))"
    by simp_all
  have c0: "cellAt (csvRead ?csv) 0 ''text'' = Some (vr_text (vd_vectors exampleData ! 0))"
    using cells len by simp
  have c1: "cellAt (csvRead ?csv) 1 ''source'' = Some (vr_source (vd_vectors exampleData ! 1))
          \<and> cellAt (csvRead ?csv) 1 ''vector''
                 = Some (JSON_stringify exampleExport (JArray (map JNumber (vr_vector (vd_vectors exampleData ! 1)))))"
    using cells len by simp
  show ?thesis
    using exported n len c0 c1 t0 s1 v1 by simp
qed

end
